theory Spec2Isabelle
  imports Complex_Main
begin

section \<open>Double-precision values\<close>

text \<open>
  The values a Python float or a float64 array element can hold: the two infinities, the
  finite numbers and NaN. A finite number is given by its real value; the sign of zero is
  not modelled. The operations \<open>fl_sub\<close>, \<open>fl_div\<close> and \<open>fl_log\<close> of this section
  compute on the real values exactly and follow the IEEE rules for the special values; the
  next section adds the rounding to double precision.
\<close>

datatype fl = NInf | Fin real | PInf | NaN

fun is_nan :: "fl \<Rightarrow> bool" where
  "is_nan NaN = True"
| "is_nan _ = False"

text \<open>Comparisons: every comparison with NaN is false.\<close>

fun fl_le :: "fl \<Rightarrow> fl \<Rightarrow> bool" where
  "fl_le NaN _ = False"
| "fl_le _ NaN = False"
| "fl_le NInf _ = True"
| "fl_le _ PInf = True"
| "fl_le (Fin x) (Fin y) = (x \<le> y)"
| "fl_le (Fin x) NInf = False"
| "fl_le PInf _ = False"

fun fl_lt :: "fl \<Rightarrow> fl \<Rightarrow> bool" where
  "fl_lt NaN _ = False"
| "fl_lt _ NaN = False"
| "fl_lt (Fin x) (Fin y) = (x < y)"
| "fl_lt NInf NInf = False"
| "fl_lt NInf _ = True"
| "fl_lt PInf _ = False"
| "fl_lt (Fin x) PInf = True"
| "fl_lt (Fin x) NInf = False"

text \<open>Subtraction: \<open>inf - inf\<close> is NaN.\<close>

fun fl_sub :: "fl \<Rightarrow> fl \<Rightarrow> fl" where
  "fl_sub NaN _ = NaN"
| "fl_sub _ NaN = NaN"
| "fl_sub (Fin x) (Fin y) = Fin (x - y)"
| "fl_sub (Fin x) PInf = NInf"
| "fl_sub (Fin x) NInf = PInf"
| "fl_sub PInf PInf = NaN"
| "fl_sub PInf _ = PInf"
| "fl_sub NInf NInf = NaN"
| "fl_sub NInf _ = NInf"

text \<open>Division: \<open>inf / inf\<close> and \<open>0 / 0\<close> are NaN, a finite number over an infinity is 0.\<close>

fun fl_div :: "fl \<Rightarrow> fl \<Rightarrow> fl" where
  "fl_div NaN _ = NaN"
| "fl_div _ NaN = NaN"
| "fl_div (Fin x) (Fin y) =
     (if y = 0 then (if x = 0 then NaN else if 0 < x then PInf else NInf)
      else Fin (x / y))"
| "fl_div (Fin x) _ = Fin 0"
| "fl_div PInf (Fin y) = (if y < 0 then NInf else PInf)"
| "fl_div NInf (Fin y) = (if y < 0 then PInf else NInf)"
| "fl_div _ _ = NaN"

text \<open>Natural logarithm: \<open>log 0\<close> is minus infinity, the logarithm of a negative number is NaN.\<close>

fun fl_log :: "fl \<Rightarrow> fl" where
  "fl_log NaN = NaN"
| "fl_log NInf = NaN"
| "fl_log PInf = PInf"
| "fl_log (Fin x) = (if 0 < x then Fin (ln x) else if x = 0 then NInf else NaN)"


section \<open>Rounding to double precision\<close>

text \<open>
  A subtraction or division of doubles, and a conversion of an integer to a double, gives
  the double nearest to the exact result, a tie going to the double whose last bit is even,
  and an infinity when the rounded magnitude reaches \<open>2^1024\<close>.
  \<open>rne\<close> rounds a real to the nearest integer, ties to even. Around a real \<open>r\<close> the
  doubles are the multiples of \<open>2^e\<close> with \<open>e = max (floor (log2 |r|) - 52) (-1074)\<close>
  (\<open>ulp_exp\<close>: 53 significant bits, least exponent -1074), so \<open>round_real\<close> rounds
  \<open>r / 2^e\<close> to an integer and scales back; \<open>to_double\<close> adds the overflow.
  \<open>is_double\<close> holds of the reals that are finite doubles: rounding leaves them as they are.
\<close>

definition rne :: "real \<Rightarrow> int" where
  "rne q =
     (let f = \<lfloor>q\<rfloor>; d = q - of_int f
      in if d < 1 / 2 then f else if 1 / 2 < d then f + 1 else if even f then f else f + 1)"

definition ulp_exp :: "real \<Rightarrow> int" where
  "ulp_exp r = max (\<lfloor>log 2 \<bar>r\<bar>\<rfloor> - 52) (- 1074)"

definition round_real :: "real \<Rightarrow> real" where
  "round_real r =
     (if r = 0 then 0 else of_int (rne (r / 2 powi ulp_exp r)) * 2 powi ulp_exp r)"

definition to_double :: "real \<Rightarrow> fl" where
  "to_double r =
     (if 2 ^ 1024 \<le> \<bar>round_real r\<bar> then (if 0 < r then PInf else NInf)
      else Fin (round_real r))"

definition is_double :: "real \<Rightarrow> bool" where
  "is_double r \<longleftrightarrow> round_real r = r \<and> \<bar>r\<bar> < 2 ^ 1024"

text \<open>
  The operations on doubles as the machine computes them: the exact result, rounded.
\<close>

fun fl_round :: "fl \<Rightarrow> fl" where
  "fl_round (Fin r) = to_double r"
| "fl_round v = v"

definition double_sub :: "fl \<Rightarrow> fl \<Rightarrow> fl" where
  "double_sub x y = fl_round (fl_sub x y)"

definition double_div :: "fl \<Rightarrow> fl \<Rightarrow> fl" where
  "double_div x y = fl_round (fl_div x y)"


section \<open>The distribution objects\<close>

text \<open>
  The class of a distribution object decides which \<open>_pdf\<close> and \<open>_logpdf\<close> methods it
  runs: \<open>UniformUnnormedRV_generator\<close> is the class defined in prior.py,
  \<open>uniform_gen\<close> is the class of \<open>scipy.stats.uniform\<close>.
\<close>

datatype rv_class = UniformUnnormedRV_generator | uniform_gen

text \<open>
  A distribution object as \<open>Prior\<close> holds it: its class, the support bounds \<open>a\<close> and
  \<open>b\<close> of the standardised variable, and the location and scale that a call of
  \<open>pdf\<close> or \<open>logpdf\<close> uses.
\<close>

record rv =
  rv_class :: rv_class
  rv_a :: fl
  rv_b :: fl
  rv_loc :: fl
  rv_scale :: fl

text \<open>
  prior.py, class \<open>UniformUnnormedRV_generator\<close>:
  \<^verbatim>\<open>def _pdf(self, x): return np.ones_like(x).astype(np.float64, casting='same_kind')\<close>
  \<^verbatim>\<open>def _logpdf(self, x): return np.zeros_like(x).astype(np.float64, casting='same_kind')\<close>
  The argument is the float64 array of the points inside the support, so the cast is the
  identity; the model gives the value at one point.
\<close>

definition UniformUnnormedRV_generator_pdf :: "fl \<Rightarrow> fl" where
  "UniformUnnormedRV_generator_pdf x = Fin 1"

definition UniformUnnormedRV_generator_logpdf :: "fl \<Rightarrow> fl" where
  "UniformUnnormedRV_generator_logpdf x = Fin 0"

text \<open>
  Modelled from the spec: the density methods of \<open>scipy.stats.uniform\<close>, which prior.py
  imports and src/ does not hold. Spec 4.3: the normalised uniform distribution has density
  \<open>1/(upper-lower)\<close> inside the interval; on the standardised variable that is the
  library's \<open>_pdf(x) = 1.0*(x==x)\<close> on the support \<open>[0, 1]\<close>, and \<open>_logpdf\<close> is the
  library's default, the logarithm of \<open>_pdf\<close>.
\<close>

definition uniform_gen_pdf :: "fl \<Rightarrow> fl" where
  "uniform_gen_pdf x = (if is_nan x then Fin 0 else Fin 1)"

definition uniform_gen_logpdf :: "fl \<Rightarrow> fl" where
  "uniform_gen_logpdf x = fl_log (uniform_gen_pdf x)"

fun method_pdf :: "rv_class \<Rightarrow> fl \<Rightarrow> fl" where
  "method_pdf UniformUnnormedRV_generator x = UniformUnnormedRV_generator_pdf x"
| "method_pdf uniform_gen x = uniform_gen_pdf x"

fun method_logpdf :: "rv_class \<Rightarrow> fl \<Rightarrow> fl" where
  "method_logpdf UniformUnnormedRV_generator x = UniformUnnormedRV_generator_logpdf x"
| "method_logpdf uniform_gen x = uniform_gen_logpdf x"

text \<open>
  Modelled from the spec: the public \<open>pdf\<close> and \<open>logpdf\<close> of the distribution library
  (\<open>scipy.stats.rv_continuous\<close>), which prior.py inherits and calls and src/ does not
  hold. Spec 6: a distribution abstraction "supplying pdf, logpdf, and frozen-parameter
  construction (shape, location, scale)"; spec 4.1 and 4.2: the density is "0.0 for any
  value outside the distribution's support", "implicitly 0.0 outside via the support
  bounds", and the log-density is "negative infinity where the density is zero".
  The steps are the library's, at one point \<open>v\<close>:
  the point is standardised, \<open>x = (v - loc) / scale\<close>;
  \<open>cond0\<close> is \<open>scale > 0\<close> (these classes have no shape parameter to check);
  \<open>cond1\<close> is the closed support test \<open>(a <= x) & (x <= b)\<close>, with \<open>scale > 0\<close>;
  the result starts as 0.0 (for \<open>logpdf\<close>: minus infinity), is NaN where \<open>cond0\<close>
  fails or \<open>x\<close> is NaN, and is \<open>_pdf(x) / scale\<close> (for \<open>logpdf\<close>:
  \<open>_logpdf(x) - log(scale)\<close>) where both conditions hold.
  \<open>rv_pdf\<close> and \<open>rv_logpdf\<close> compute these steps on the real values, as the spec states
  the densities; \<open>rv_pdf_double\<close> below computes the density with every subtraction and
  division rounded to double precision, as the library does on float64 values.
\<close>

definition rv_pdf :: "rv \<Rightarrow> fl \<Rightarrow> fl" where
  "rv_pdf d v =
     (let x = fl_div (fl_sub v (rv_loc d)) (rv_scale d);
          cond0 = fl_lt (Fin 0) (rv_scale d);
          cond1 = (fl_le (rv_a d) x \<and> fl_le x (rv_b d) \<and> fl_lt (Fin 0) (rv_scale d))
      in if \<not> cond0 \<or> is_nan x then NaN
         else if cond0 \<and> cond1 then fl_div (method_pdf (rv_class d) x) (rv_scale d)
         else Fin 0)"

definition rv_logpdf :: "rv \<Rightarrow> fl \<Rightarrow> fl" where
  "rv_logpdf d v =
     (let x = fl_div (fl_sub v (rv_loc d)) (rv_scale d);
          cond0 = fl_lt (Fin 0) (rv_scale d);
          cond1 = (fl_le (rv_a d) x \<and> fl_le x (rv_b d) \<and> fl_lt (Fin 0) (rv_scale d))
      in if \<not> cond0 \<or> is_nan x then NaN
         else if cond0 \<and> cond1
           then fl_sub (method_logpdf (rv_class d) x) (fl_log (rv_scale d))
         else NInf)"

definition rv_pdf_double :: "rv \<Rightarrow> fl \<Rightarrow> fl" where
  "rv_pdf_double d v =
     (let x = double_div (double_sub v (rv_loc d)) (rv_scale d);
          cond0 = fl_lt (Fin 0) (rv_scale d);
          cond1 = (fl_le (rv_a d) x \<and> fl_le x (rv_b d) \<and> fl_lt (Fin 0) (rv_scale d))
      in if \<not> cond0 \<or> is_nan x then NaN
         else if cond0 \<and> cond1 then double_div (method_pdf (rv_class d) x) (rv_scale d)
         else Fin 0)"

text \<open>
  Modelled from the spec: the constructors of the distribution library, which src/ does not
  hold. \<open>rv_continuous_init\<close> is \<open>rv_continuous.__init__(name=..., a=..., b=...)\<close>: it
  stores the support bounds, and a later call of \<open>pdf\<close> without further arguments uses
  location 0 and scale 1. \<open>scipy_stats_uniform\<close> is the call \<open>scipy.stats.uniform(loc,
  scale)\<close>, which freezes location and scale on the class whose support is \<open>[0, 1]\<close>.
  Neither checks its arguments (spec 7: "no explicit bounds validation").
\<close>

definition rv_continuous_init :: "rv_class \<Rightarrow> fl \<Rightarrow> fl \<Rightarrow> rv" where
  "rv_continuous_init cls a b =
     \<lparr>rv_class = cls, rv_a = a, rv_b = b, rv_loc = Fin 0, rv_scale = Fin 1\<rparr>"

definition scipy_stats_uniform :: "fl \<Rightarrow> fl \<Rightarrow> rv" where
  "scipy_stats_uniform loc scale =
     \<lparr>rv_class = uniform_gen, rv_a = Fin 0, rv_b = Fin 1, rv_loc = loc, rv_scale = scale\<rparr>"

text \<open>
  prior.py:
  \<^verbatim>\<open>def UniformUnnormedRV(lower=-np.inf, upper=np.inf):
      return UniformUnnormedRV_generator(name='unnormed_uniform', a=lower, b=upper)\<close>
  \<^verbatim>\<open>def UniformBoundedRV(lower=0., upper=1.):
      uu = scipy.stats.uniform(lower, (upper-lower))
      return uu\<close>
  The difference \<open>upper-lower\<close> is a subtraction of doubles: it rounds, and it overflows
  to an infinity.
\<close>

definition UniformUnnormedRV :: "fl \<Rightarrow> fl \<Rightarrow> rv" where
  "UniformUnnormedRV lower upper = rv_continuous_init UniformUnnormedRV_generator lower upper"

definition UniformBoundedRV :: "fl \<Rightarrow> fl \<Rightarrow> rv" where
  "UniformBoundedRV lower upper =
     (let uu = scipy_stats_uniform lower (double_sub upper lower) in uu)"


section \<open>Python values and the conversions to double precision\<close>

datatype error = TypeError | OverflowError | ValueError

text \<open>
  A homogeneous numeric array, by the kind of its dtype: boolean, integer (the values of
  any machine integer dtype, each at most 64 bits wide), floating, complex (real and
  imaginary parts). Arrays are one-dimensional; \<open>size_arr\<close> is the number of elements.
\<close>

datatype ndarray =
    BoolArr "bool list"
  | IntArr "int list"
  | FloatArr "fl list"
  | ComplexArr "(fl \<times> fl) list"

fun size_arr :: "ndarray \<Rightarrow> nat" where
  "size_arr (BoolArr bs) = length bs"
| "size_arr (IntArr ns) = length ns"
| "size_arr (FloatArr xs) = length xs"
| "size_arr (ComplexArr zs) = length zs"

datatype dtype_kind = KBool | KInt | KFloat | KComplex

fun dtype :: "ndarray \<Rightarrow> dtype_kind" where
  "dtype (BoolArr bs) = KBool"
| "dtype (IntArr ns) = KInt"
| "dtype (FloatArr xs) = KFloat"
| "dtype (ComplexArr zs) = KComplex"

text \<open>
  The inputs \<open>pdf\<close> and \<open>logpdf\<close> are modelled on: Python's numeric scalars (bool,
  unbounded int, float, complex), a numpy complex scalar (\<open>numpy.complex128\<close>, real and
  imaginary part), a string, lists and tuples, an object whose type is exactly
  \<open>numpy.ndarray\<close>, and an instance of a proper subclass of \<open>numpy.ndarray\<close> (such as
  \<open>numpy.matrix\<close>) that inherits the conversion methods. A string is given by what it
  reads as: \<open>PyStr (Some x)\<close> is a string that is a float literal of value \<open>x\<close> (such
  as \<open>'0.5'\<close>), \<open>PyStr None\<close> a string that is no float literal. The real scalars
  of numpy (\<open>numpy.bool_\<close>, \<open>numpy.int64\<close>, \<open>numpy.float64\<close>) convert as the Python
  scalars of the same value do and are not listed apart.
\<close>

datatype pyval =
    PyBool bool
  | PyInt int
  | PyFloat fl
  | PyComplex fl fl
  | NpComplex fl fl
  | PyStr "fl option"
  | PyList "pyval list"
  | PyTuple "pyval list"
  | Ndarray ndarray
  | NdSubclass ndarray

fun is_ndarray :: "pyval \<Rightarrow> bool" where
  "is_ndarray (Ndarray arr) = True"
| "is_ndarray _ = False"


text \<open>A double-precision value handed to, or returned by, a distribution: a scalar or an array.\<close>

datatype npval = Scalar fl | Array "fl list"

definition float_of_bool :: "bool \<Rightarrow> fl" where
  "float_of_bool b = (if b then Fin 1 else Fin 0)"

text \<open>
  Modelled from the spec: numpy's \<open>astype(np.float64, casting='same_kind')\<close>, which src/
  does not hold. Spec 4.1: "a same-kind cast: fails if the input type cannot be represented
  as the target floating kind, e.g. complex input is rejected". \<open>can_cast_same_kind\<close> is
  numpy's casting table for the target float64: boolean, integer and floating dtypes may be
  cast, a complex dtype may not, and then \<open>astype\<close> raises TypeError. An integer element
  is rounded to the nearest double.
\<close>

fun can_cast_same_kind :: "dtype_kind \<Rightarrow> bool" where
  "can_cast_same_kind KBool = True"
| "can_cast_same_kind KInt = True"
| "can_cast_same_kind KFloat = True"
| "can_cast_same_kind KComplex = False"

fun astype_float64_same_kind :: "ndarray \<Rightarrow> error + fl list" where
  "astype_float64_same_kind (BoolArr bs) = Inr (map float_of_bool bs)"
| "astype_float64_same_kind (IntArr ns) = Inr (map (\<lambda>n. to_double (of_int n)) ns)"
| "astype_float64_same_kind (FloatArr xs) = Inr xs"
| "astype_float64_same_kind (ComplexArr zs) = Inl TypeError"

text \<open>
  Modelled from the spec: \<open>np.float\<close>, which src/ does not hold; in the numpy the module
  was written for it is Python's built-in \<open>float\<close>. Spec 4.1: the input is coerced "to
  double-precision floating point", "complex input is rejected". Beyond the spec's words
  the cases are Python's and numpy's:
  a bool or a float converts;
  an int is rounded to the nearest double, and \<open>float\<close> raises OverflowError when the
  rounding overflows;
  a built-in complex, a list and a tuple raise TypeError;
  a numpy complex scalar converts to its real part (numpy warns and discards the imaginary
  part);
  a string converts when it is a float literal and raises ValueError otherwise;
  an array object converts through \<open>ndarray.__float__\<close> (\<open>item_float\<close>): an array of
  exactly one boolean, integer or floating element converts to that element, every other
  array raises TypeError.
\<close>

fun item_float :: "ndarray \<Rightarrow> error + fl" where
  "item_float (BoolArr [b]) = Inr (float_of_bool b)"
| "item_float (IntArr [n]) = Inr (to_double (of_int n))"
| "item_float (FloatArr [x]) = Inr x"
| "item_float _ = Inl TypeError"

fun np_float :: "pyval \<Rightarrow> error + fl" where
  "np_float (PyBool b) = Inr (float_of_bool b)"
| "np_float (PyInt n) =
     (case to_double (of_int n) of Fin x \<Rightarrow> Inr (Fin x) | _ \<Rightarrow> Inl OverflowError)"
| "np_float (PyFloat x) = Inr x"
| "np_float (PyComplex re im) = Inl TypeError"
| "np_float (NpComplex re im) = Inr re"
| "np_float (PyStr None) = Inl ValueError"
| "np_float (PyStr (Some x)) = Inr x"
| "np_float (PyList xs) = Inl TypeError"
| "np_float (PyTuple xs) = Inl TypeError"
| "np_float (Ndarray arr) = item_float arr"
| "np_float (NdSubclass arr) = item_float arr"

text \<open>
  The library's \<open>pdf\<close> and \<open>logpdf\<close> on a double-precision argument: a scalar gives a
  scalar, an array is evaluated element by element.
\<close>

fun rv_pdf_val :: "rv \<Rightarrow> npval \<Rightarrow> npval" where
  "rv_pdf_val d (Scalar x) = Scalar (rv_pdf d x)"
| "rv_pdf_val d (Array xs) = Array (map (rv_pdf d) xs)"

fun rv_logpdf_val :: "rv \<Rightarrow> npval \<Rightarrow> npval" where
  "rv_logpdf_val d (Scalar x) = Scalar (rv_logpdf d x)"
| "rv_logpdf_val d (Array xs) = Array (map (rv_logpdf d) xs)"


section \<open>The Prior wrapper\<close>

text \<open>
  prior.py, class \<open>Prior\<close>. The object has one attribute, \<open>_rv\<close>, assigned by
  \<open>__init__\<close>. A method call is modelled with the object passed in and returned, so
  that what the call does to the object is part of its result; an exception leaves the
  method at once, with the object as it is.
  \<^verbatim>\<open>def pdf(self,value):
      if type(value) == np.ndarray:
          v = value.astype(np.float64,casting='same_kind')
      else:
          v = np.float(value)
      return self._rv.pdf(v)\<close>
  and \<open>logpdf\<close> the same with \<open>self._rv.logpdf(v)\<close>.
\<close>

record Prior =
  Prior_rv :: rv

definition Prior_init :: "rv \<Rightarrow> Prior" where
  "Prior_init rv = \<lparr>Prior_rv = rv\<rparr>"

definition Prior_pdf :: "Prior \<Rightarrow> pyval \<Rightarrow> (error + npval) \<times> Prior" where
  "Prior_pdf self val =
     (case (case val of
              Ndarray arr \<Rightarrow> map_sum id Array (astype_float64_same_kind arr)
            | _ \<Rightarrow> map_sum id Scalar (np_float val)) of
        Inl e \<Rightarrow> (Inl e, self)
      | Inr v \<Rightarrow> (Inr (rv_pdf_val (Prior_rv self) v), self))"

definition Prior_logpdf :: "Prior \<Rightarrow> pyval \<Rightarrow> (error + npval) \<times> Prior" where
  "Prior_logpdf self val =
     (case (case val of
              Ndarray arr \<Rightarrow> map_sum id Array (astype_float64_same_kind arr)
            | _ \<Rightarrow> map_sum id Scalar (np_float val)) of
        Inl e \<Rightarrow> (Inl e, self)
      | Inr v \<Rightarrow> (Inr (rv_logpdf_val (Prior_rv self) v), self))"




text \<open>
  A sequence of method calls on one Prior object, to state what calls leave behind:
  \<open>after_calls self cs\<close> is the object after the calls \<open>cs\<close>, made in order.
\<close>

datatype call = Pdf pyval | Logpdf pyval

fun do_call :: "Prior \<Rightarrow> call \<Rightarrow> (error + npval) \<times> Prior" where
  "do_call self (Pdf val) = Prior_pdf self val"
| "do_call self (Logpdf val) = Prior_logpdf self val"

fun after_calls :: "Prior \<Rightarrow> call list \<Rightarrow> Prior" where
  "after_calls self [] = self"
| "after_calls self (c # cs) = after_calls (snd (do_call self c)) cs"

section \<open>Basic facts\<close>

subsection \<open>Rounding\<close>

lemma rne_of_int [simp]: "rne (of_int n) = n"
  by (simp add: rne_def)

lemma rne_bounds: "\<lfloor>q\<rfloor> \<le> rne q" "rne q \<le> \<lfloor>q\<rfloor> + 1"
  by (simp_all add: rne_def Let_def)

lemma rne_mono: "q \<le> q' \<Longrightarrow> rne q \<le> rne q'"
proof -
  assume le: "q \<le> q'"
  then have "\<lfloor>q\<rfloor> \<le> \<lfloor>q'\<rfloor>" by (rule floor_mono)
  then consider "\<lfloor>q\<rfloor> < \<lfloor>q'\<rfloor>" | "\<lfloor>q\<rfloor> = \<lfloor>q'\<rfloor>" by linarith
  then show ?thesis
  proof cases
    case 1
    then show ?thesis using rne_bounds(2) [of q] rne_bounds(1) [of q'] by linarith
  next
    case 2
    then show ?thesis using le by (auto simp add: rne_def Let_def)
  qed
qed

lemma rne_minus: "rne (- q) = - rne q"
proof (cases "q = of_int \<lfloor>q\<rfloor>")
  case True
  then obtain n where "q = of_int n" ..
  then have "- q = of_int (- n)" by simp
  then show ?thesis using \<open>q = of_int n\<close> by (simp only: rne_of_int)
next
  case False
  then have fl: "\<lfloor>- q\<rfloor> = - \<lfloor>q\<rfloor> - 1"
  proof -
    have "of_int (- \<lfloor>q\<rfloor> - 1) \<le> - q" "- q < of_int (- \<lfloor>q\<rfloor> - 1) + 1"
      using False of_int_floor_le [of q] floor_correct [of q] by linarith+
    then show ?thesis by (simp only: floor_unique)
  qed
  show ?thesis
    unfolding rne_def Let_def fl
    by (auto simp add: algebra_simps)
qed

lemma rne_nonneg: "0 \<le> q \<Longrightarrow> 0 \<le> rne q"
  using rne_mono [of 0 q] rne_of_int [of 0] by simp

lemma rne_less_half: "q < of_int n - 1 / 2 \<Longrightarrow> rne q \<le> n - 1"
proof -
  assume a: "q < of_int n - 1 / 2"
  have "\<lfloor>q\<rfloor> \<le> n - 1" using a by linarith
  then consider "\<lfloor>q\<rfloor> = n - 1" | "\<lfloor>q\<rfloor> + 1 \<le> n - 1" by linarith
  then show ?thesis
  proof cases
    case 1
    then have "q - of_int \<lfloor>q\<rfloor> < 1 / 2" using a by simp
    then show ?thesis using 1 by (simp add: rne_def Let_def)
  next
    case 2
    then show ?thesis using rne_bounds(2) [of q] by linarith
  qed
qed


lemma two_powr_int: "2 powr (of_int k) = (2::real) powi k"
  by (simp add: powr_real_of_int')

lemma binade:
  assumes "0 < r"
  shows "2 powi \<lfloor>log 2 r\<rfloor> \<le> r" and "r < 2 powi (\<lfloor>log 2 r\<rfloor> + 1)"
proof -
  have "2 powr (of_int \<lfloor>log 2 r\<rfloor>) \<le> r \<and> r < 2 powr (of_int \<lfloor>log 2 r\<rfloor> + 1)"
    using floor_log_eq_powr_iff [of r 2 "\<lfloor>log 2 r\<rfloor>"] assms by simp
  moreover have "of_int \<lfloor>log 2 r\<rfloor> + 1 = (of_int (\<lfloor>log 2 r\<rfloor> + 1) :: real)" by simp
  ultimately show "2 powi \<lfloor>log 2 r\<rfloor> \<le> r" and "r < 2 powi (\<lfloor>log 2 r\<rfloor> + 1)"
    by (simp_all only: two_powr_int)
qed

lemma floor_log_eqI:
  assumes "2 powi k \<le> r" and "r < 2 powi (k + 1)"
  shows "\<lfloor>log 2 r\<rfloor> = k"
proof -
  have pos: "0 < r" using assms(1) zero_less_power_int [of "2::real" k] by linarith
  have "of_int k + 1 = (of_int (k + 1) :: real)" by simp
  then have "2 powr (of_int k) \<le> r \<and> r < 2 powr (of_int k + 1)"
    using assms by (simp only: two_powr_int)
  then show ?thesis
    using floor_log_eq_powr_iff [of r 2 k] pos by simp
qed

lemma floor_log_ge:
  assumes "2 powi k \<le> r"
  shows "k \<le> \<lfloor>log 2 r\<rfloor>"
proof -
  have pos: "0 < r" using assms zero_less_power_int [of "2::real" k] by linarith
  have "2 powr (of_int k) \<le> r" using assms by (simp only: two_powr_int)
  then have "of_int k \<le> log 2 r" using pos by (simp add: le_log_iff)
  then show ?thesis by (simp add: le_floor_iff)
qed

lemma ulp_exp_eqI:
  assumes "2 powi k \<le> \<bar>r\<bar>" and "\<bar>r\<bar> < 2 powi (k + 1)"
  shows "ulp_exp r = max (k - 52) (- 1074)"
  using floor_log_eqI [OF assms] by (simp add: ulp_exp_def)

lemma ulp_exp_minus [simp]: "ulp_exp (- r) = ulp_exp r"
  by (simp add: ulp_exp_def)

lemma ulp_exp_ge: "- 1074 \<le> ulp_exp r"
  by (simp add: ulp_exp_def)

lemma ulp_exp_mono:
  assumes "0 < r" and "r \<le> s"
  shows "ulp_exp r \<le> ulp_exp s"
proof -
  have "log 2 r \<le> log 2 s" using assms by simp
  then have "\<lfloor>log 2 r\<rfloor> \<le> \<lfloor>log 2 s\<rfloor>" by (rule floor_mono)
  then show ?thesis using assms by (simp add: ulp_exp_def)
qed

lemma round_real_minus: "round_real (- r) = - round_real r"
  by (simp add: round_real_def rne_minus)

lemma round_real_zero [simp]: "round_real 0 = 0"
  by (simp add: round_real_def)

lemma round_real_nonneg:
  assumes "0 \<le> r"
  shows "0 \<le> round_real r"
proof -
  have "0 \<le> r / 2 powi ulp_exp r" using assms by simp
  then have "0 \<le> rne (r / 2 powi ulp_exp r)" by (rule rne_nonneg)
  then show ?thesis by (simp add: round_real_def)
qed

text \<open>A power of two at or above the unit in the last place is a grid point.\<close>

lemma grid_quotient:
  assumes "e \<le> j"
  shows "2 powi j / 2 powi e = (of_int (2 ^ nat (j - e)) :: real)"
proof -
  have "(2::real) powi j = 2 powi (j - e) * 2 powi e"
    by (simp add: power_int_add [symmetric])
  moreover have "(2::real) powi (j - e) = 2 ^ nat (j - e)"
    using assms by (simp add: power_int_nonneg_exp)
  ultimately show ?thesis by simp
qed

lemma round_real_upper:
  assumes "0 < r" and "r \<le> 2 powi j" and "ulp_exp r \<le> j"
  shows "round_real r \<le> 2 powi j"
proof -
  define e where "e = ulp_exp r"
  have "r / 2 powi e \<le> 2 powi j / 2 powi e"
    using assms(2) by (simp add: divide_right_mono)
  then have "rne (r / 2 powi e) \<le> rne (of_int (2 ^ nat (j - e)))"
    using assms(3) by (intro rne_mono) (simp add: grid_quotient e_def)
  then have "rne (r / 2 powi e) \<le> 2 ^ nat (j - e)"
    by (simp only: rne_of_int)
  then have "of_int (rne (r / 2 powi e)) \<le> (of_int (2 ^ nat (j - e)) :: real)"
    by (simp only: of_int_le_iff)
  then have "of_int (rne (r / 2 powi e)) * 2 powi e \<le> (2 powi j / 2 powi e) * (2 powi e :: real)"
    using assms(3) by (simp only: grid_quotient e_def [symmetric]) (simp add: mult_right_mono)
  then show ?thesis
    using assms(1) by (simp add: round_real_def e_def)
qed

lemma round_real_lower:
  assumes "2 powi j \<le> r" and "ulp_exp r \<le> j"
  shows "2 powi j \<le> round_real r"
proof -
  define e where "e = ulp_exp r"
  have pos: "0 < r" using assms(1) zero_less_power_int [of "2::real" j] by linarith
  have "2 powi j / 2 powi e \<le> r / 2 powi e"
    using assms(1) by (simp add: divide_right_mono)
  then have "rne (of_int (2 ^ nat (j - e))) \<le> rne (r / 2 powi e)"
    using assms(2) by (intro rne_mono) (simp add: grid_quotient e_def)
  then have "2 ^ nat (j - e) \<le> rne (r / 2 powi e)"
    by (simp only: rne_of_int)
  then have "(of_int (2 ^ nat (j - e)) :: real) \<le> of_int (rne (r / 2 powi e))"
    by (simp only: of_int_le_iff)
  then have "(2 powi j / 2 powi e) * (2 powi e :: real) \<le> of_int (rne (r / 2 powi e)) * 2 powi e"
    using assms(2) by (simp only: grid_quotient e_def [symmetric]) (simp add: mult_right_mono)
  then show ?thesis
    using pos by (simp add: round_real_def e_def)
qed

lemma round_real_mono_pos:
  assumes "0 < r" and "r \<le> s"
  shows "round_real r \<le> round_real s"
proof -
  have le: "ulp_exp r \<le> ulp_exp s" using assms by (rule ulp_exp_mono)
  have spos: "0 < s" using assms by linarith
  show ?thesis
  proof (cases "ulp_exp r = ulp_exp s")
    case True
    have "r / 2 powi ulp_exp s \<le> s / 2 powi ulp_exp s"
      using assms(2) by (simp add: divide_right_mono)
    then have "rne (r / 2 powi ulp_exp s) \<le> rne (s / 2 powi ulp_exp s)" by (rule rne_mono)
    then have "of_int (rne (r / 2 powi ulp_exp s)) * (2::real) powi ulp_exp s
        \<le> of_int (rne (s / 2 powi ulp_exp s)) * 2 powi ulp_exp s"
      by (simp add: mult_right_mono)
    then show ?thesis using assms spos True by (simp add: round_real_def)
  next
    case False
    define k where "k = \<lfloor>log 2 s\<rfloor>"
    from False le have lt: "ulp_exp r < ulp_exp s" by simp
    then have es: "ulp_exp s = k - 52"
      using ulp_exp_ge [of r] spos by (simp add: ulp_exp_def k_def max_def split: if_splits)
    have r_below: "r < 2 powi k"
    proof (rule ccontr)
      assume "\<not> r < 2 powi k"
      then have "k \<le> \<lfloor>log 2 r\<rfloor>" by (intro floor_log_ge) simp
      then have "k - 52 \<le> ulp_exp r" using assms(1) by (simp add: ulp_exp_def)
      with lt es show False by simp
    qed
    have "round_real r \<le> 2 powi k"
      using assms(1) r_below lt es by (intro round_real_upper) simp_all
    moreover have "2 powi k \<le> round_real s"
      using binade(1) [OF spos] es by (intro round_real_lower) (simp_all add: k_def)
    ultimately show ?thesis by linarith
  qed
qed

lemma round_real_mono:
  assumes "r \<le> s"
  shows "round_real r \<le> round_real s"
proof -
  consider "0 < r" | "r \<le> 0" "0 \<le> s" | "s < 0" by linarith
  then show ?thesis
  proof cases
    case 1
    then show ?thesis using assms by (rule round_real_mono_pos)
  next
    case 2
    then have "round_real r \<le> 0"
      using round_real_nonneg [of "- r"] by (simp add: round_real_minus)
    moreover have "0 \<le> round_real s" using 2 by (intro round_real_nonneg)
    ultimately show ?thesis by linarith
  next
    case 3
    then have "round_real (- s) \<le> round_real (- r)"
      using assms by (intro round_real_mono_pos) simp_all
    then show ?thesis by (simp add: round_real_minus)
  qed
qed

lemma round_real_exact:
  assumes "r = of_int m * 2 powi j" and "ulp_exp r \<le> j"
  shows "round_real r = r"
proof (cases "r = 0")
  case False
  define e where "e = ulp_exp r"
  have "r / 2 powi e = of_int m * (2 powi j / 2 powi e)"
    using assms(1) by simp
  also have "\<dots> = of_int (m * 2 ^ nat (j - e))"
    using assms(2) by (simp only: grid_quotient e_def [symmetric]) simp
  finally have "rne (r / 2 powi e) = m * 2 ^ nat (j - e)"
    by (simp only: rne_of_int)
  then have "round_real r = of_int (m * 2 ^ nat (j - e)) * 2 powi e"
    using False by (simp add: round_real_def e_def)
  also have "\<dots> = of_int m * ((2 powi j / 2 powi e) * 2 powi e)"
    using assms(2) by (simp only: grid_quotient e_def [symmetric]) simp
  also have "\<dots> = r" using assms(1) by simp
  finally show ?thesis .
qed simp

lemma round_real_below_overflow:
  assumes "\<bar>r\<bar> < 2 ^ 1024 - 2 ^ 970"
  shows "\<bar>round_real r\<bar> < 2 ^ 1024"
proof -
  have pos: "round_real s < 2 ^ 1024" if "0 < s" and "s < 2 ^ 1024 - 2 ^ 970" for s :: real
  proof (cases "s < 2 powi 1023")
    case True
    then have "\<lfloor>log 2 s\<rfloor> \<le> 1023"
      using binade(1) [OF \<open>0 < s\<close>]
      by (smt (verit) power_int_le_imp_le_exp)
    then have "ulp_exp s \<le> 1023" using \<open>0 < s\<close> by (simp add: ulp_exp_def)
    then have "round_real s \<le> 2 powi 1023"
      using True that(1) by (intro round_real_upper) simp_all
    then show ?thesis by simp
  next
    case False
    then have "2 powi 1023 \<le> \<bar>s\<bar>" "\<bar>s\<bar> < 2 powi (1023 + 1)"
      using that by simp_all
    then have e: "ulp_exp s = 971"
      using ulp_exp_eqI [of 1023 s] by simp
    have "s / 2 powi 971 < of_int (2 ^ 53) - 1 / 2"
      using that(2) by (simp add: field_simps)
    then have "rne (s / 2 powi 971) \<le> 2 ^ 53 - 1" by (rule rne_less_half)
    then have "(of_int (rne (s / 2 powi 971)) :: real) \<le> of_int (2 ^ 53 - 1)"
      by (simp only: of_int_le_iff)
    then have "of_int (rne (s / 2 powi 971)) * (2::real) powi 971 \<le> of_int (2 ^ 53 - 1) * 2 powi 971"
      by (simp add: mult_right_mono)
    then show ?thesis
      using that(1) e by (simp add: round_real_def)
  qed
  consider "0 < r" | "r = 0" | "r < 0" by linarith
  then show ?thesis
  proof cases
    case 1
    then show ?thesis using pos [of r] assms round_real_nonneg [of r] by simp
  next
    case 2
    then show ?thesis by simp
  next
    case 3
    then have "round_real (- r) < 2 ^ 1024" using assms by (intro pos) simp_all
    moreover have "round_real r \<le> 0"
      using 3 round_real_nonneg [of "- r"] by (simp add: round_real_minus)
    ultimately show ?thesis by (simp add: round_real_minus)
  qed
qed


lemma ulp_exp_le_dyadic:
  assumes "r = of_int m * 2 powi j" and "\<bar>m\<bar> < 2 ^ 53" and "- 1074 \<le> j" and "r \<noteq> 0"
  shows "ulp_exp r \<le> j"
proof -
  have "\<bar>r\<bar> = of_int \<bar>m\<bar> * 2 powi j"
    using assms(1) by (simp add: abs_mult)
  moreover have "(of_int \<bar>m\<bar> :: real) < of_int (2 ^ 53)"
    using assms(2) by (simp only: of_int_less_iff)
  ultimately have "\<bar>r\<bar> < 2 ^ 53 * 2 powi j"
    by simp
  also have "\<dots> = 2 powi (53 + j)"
    by (simp add: power_int_add)
  finally have lt: "\<bar>r\<bar> < 2 powi (53 + j)" .
  have "\<lfloor>log 2 \<bar>r\<bar>\<rfloor> < 53 + j"
  proof (rule ccontr)
    assume "\<not> \<lfloor>log 2 \<bar>r\<bar>\<rfloor> < 53 + j"
    then have "53 + j \<le> \<lfloor>log 2 \<bar>r\<bar>\<rfloor>" by simp
    then have "(2::real) powi (53 + j) \<le> 2 powi \<lfloor>log 2 \<bar>r\<bar>\<rfloor>"
      by (intro power_int_increasing) simp_all
    also have "\<dots> \<le> \<bar>r\<bar>" using assms(4) by (intro binade(1)) simp
    finally show False using lt by simp
  qed
  then show ?thesis using assms(3) by (simp add: ulp_exp_def)
qed

lemma round_real_dyadic:
  assumes "r = of_int m * 2 powi j" and "\<bar>m\<bar> < 2 ^ 53" and "- 1074 \<le> j"
  shows "round_real r = r"
proof (cases "r = 0")
  case False
  then show ?thesis
    using assms by (intro round_real_exact [of r m j] ulp_exp_le_dyadic [of r m j])
qed simp

lemma round_real_of_int:
  assumes "\<bar>n\<bar> < 2 ^ 53"
  shows "round_real (of_int n) = of_int n"
  using round_real_dyadic [of "of_int n" n 0] assms by simp

lemma round_real_one [simp]: "round_real 1 = 1"
  using round_real_of_int [of 1] by simp

lemma round_real_half_even_example: "round_real (2 ^ 53 + 1) = 2 ^ 53"
proof -
  have e: "ulp_exp (2 ^ 53 + 1) = 1"
    using ulp_exp_eqI [of 53 "2 ^ 53 + 1"] by simp
  show ?thesis
    unfolding round_real_def e by (simp add: rne_def Let_def)
qed

lemma round_real_threshold: "round_real (2 ^ 1024 - 2 ^ 970) = 2 ^ 1024"
proof -
  have e: "ulp_exp (2 ^ 1024 - 2 ^ 970) = 971"
    using ulp_exp_eqI [of 1023 "2 ^ 1024 - 2 ^ 970"] by simp
  have q: "(2 ^ 1024 - 2 ^ 970) / 2 powi 971 = (of_int (2 ^ 53 - 1) + 1 / 2 :: real)"
    by simp
  have "\<lfloor>of_int (2 ^ 53 - 1) + 1 / 2 :: real\<rfloor> = 2 ^ 53 - 1"
    by simp
  then have "rne (of_int (2 ^ 53 - 1) + 1 / 2) = 2 ^ 53"
    by (simp add: rne_def Let_def)
  then show ?thesis
    unfolding round_real_def e q by simp
qed

lemma round_real_pos:
  assumes "2 powi j \<le> r" and "- 1074 \<le> j"
  shows "2 powi j \<le> round_real r"
proof -
  have "round_real (2 powi j) = 2 powi j"
    using assms(2) round_real_dyadic [of "2 powi j" 1 j] by simp
  then show ?thesis
    using round_real_mono [OF assms(1)] by simp
qed

lemma to_double_not_nan [simp]: "\<not> is_nan (to_double r)"
  by (simp add: to_double_def)

lemma to_double_finite: "\<bar>round_real r\<bar> < 2 ^ 1024 \<Longrightarrow> to_double r = Fin (round_real r)"
  by (simp add: to_double_def)

lemma to_double_double: "is_double r \<Longrightarrow> to_double r = Fin r"
  by (simp add: to_double_def is_double_def)

lemma is_double_dyadic:
  assumes "r = of_int m * 2 powi j" and "\<bar>m\<bar> < 2 ^ 53" and "- 1074 \<le> j" and "\<bar>r\<bar> < 2 ^ 1024"
  shows "is_double r"
  using assms round_real_dyadic [of r m j] by (simp add: is_double_def)

lemma is_double_of_int: "\<bar>n\<bar> < 2 ^ 53 \<Longrightarrow> is_double (of_int n)"
proof -
  assume small: "\<bar>n\<bar> < 2 ^ 53"
  then have "(of_int \<bar>n\<bar> :: real) < of_int (2 ^ 53)"
    by (simp only: of_int_less_iff)
  then have "\<bar>of_int n :: real\<bar> < 2 ^ 1024" by simp
  then show ?thesis
    using small round_real_of_int [of n] by (simp add: is_double_def)
qed

lemma is_double_numerals [simp]:
  "is_double 0" "is_double 1" "is_double 2" "is_double (- 1)" "is_double (1 / 2)"
  "is_double (3 / 2)"
  using is_double_of_int [of 0] is_double_of_int [of 1] is_double_of_int [of 2]
    is_double_of_int [of "- 1"] is_double_dyadic [of "1 / 2" 1 "- 1"]
    is_double_dyadic [of "3 / 2" 3 "- 1"]
  by (simp_all add: power_int_minus)

lemma to_double_numerals [simp]:
  "to_double 0 = Fin 0" "to_double 1 = Fin 1" "to_double 2 = Fin 2"
  "to_double (- 1) = Fin (- 1)" "to_double (1 / 2) = Fin (1 / 2)"
  "to_double (3 / 2) = Fin (3 / 2)"
  by (simp_all add: to_double_double)

lemma to_double_between:
  assumes "0 \<le> r" and "r \<le> b" and "is_double b"
  shows "\<exists>v. to_double r = Fin v \<and> 0 \<le> v \<and> v \<le> b"
proof -
  have lo: "0 \<le> round_real r" using assms(1) by (rule round_real_nonneg)
  have "round_real r \<le> round_real b" using assms(2) by (rule round_real_mono)
  then have hi: "round_real r \<le> b" using assms(3) by (simp add: is_double_def)
  then have "\<bar>round_real r\<bar> < 2 ^ 1024" using lo assms(3) by (simp add: is_double_def)
  then show ?thesis using lo hi by (simp add: to_double_finite)
qed

lemma double_multiple:
  assumes "is_double a"
  shows "\<exists>m. a = of_int m * 2 powi (- 1074)"
proof (cases "a = 0")
  case True
  then have "a = of_int 0 * 2 powi (- 1074)" by simp
  then show ?thesis ..
next
  case False
  define e where "e = ulp_exp a"
  define n where "n = rne (a / 2 powi e)"
  have "a = of_int n * 2 powi e"
    using assms False by (simp add: is_double_def round_real_def e_def n_def)
  moreover have "(2::real) powi e = 2 powi e / 2 powi (- 1074) * 2 powi (- 1074)"
    by simp
  moreover have "(2::real) powi e / 2 powi (- 1074) = of_int (2 ^ nat (e - (- 1074)))"
    using ulp_exp_ge [of a] by (intro grid_quotient) (simp add: e_def)
  ultimately have "a = of_int (n * 2 ^ nat (e - (- 1074))) * 2 powi (- 1074)"
    by (metis (no_types, opaque_lifting) mult.assoc of_int_mult)
  then show ?thesis ..
qed

lemma double_diff_pos:
  assumes "is_double a" and "is_double b" and "a < b"
  shows "0 < round_real (b - a)"
proof -
  obtain m n where a: "a = of_int m * 2 powi (- 1074)" and b: "b = of_int n * 2 powi (- 1074)"
    using assms(1,2) double_multiple by blast
  have "of_int m * (2::real) powi (- 1074) < of_int n * 2 powi (- 1074)"
    using assms(3) a b by simp
  then have "(of_int m :: real) < of_int n"
    by (simp add: mult_less_cancel_right)
  then have "m + 1 \<le> n" by simp
  then have "(of_int (m + 1) :: real) \<le> of_int n" by (simp only: of_int_le_iff)
  then have "(of_int (m + 1) :: real) * 2 powi (- 1074) \<le> of_int n * 2 powi (- 1074)"
    by (intro mult_right_mono) simp_all
  then have "2 powi (- 1074) \<le> b - a"
    using a b by (simp add: algebra_simps)
  then have "(2::real) powi (- 1074) \<le> round_real (b - a)"
    by (intro round_real_pos) simp_all
  moreover have "(0::real) < 2 powi (- 1074)" by simp
  ultimately show ?thesis by linarith
qed

lemma double_sub_zero [simp]: "is_double r \<Longrightarrow> double_sub (Fin r) (Fin 0) = Fin r"
  by (simp add: double_sub_def to_double_double)

subsection \<open>Special values and the factories\<close>

lemma fl_sub_zero [simp]: "fl_sub v (Fin 0) = v"
  by (cases v) simp_all

lemma fl_div_one [simp]: "fl_div v (Fin 1) = v"
  by (cases v) simp_all

lemma fl_le_nan_right [simp]: "fl_le v NaN = False"
  by (cases v) simp_all

lemma fl_lt_nan_right [simp]: "fl_lt v NaN = False"
  by (cases v) simp_all

lemma fl_le_not_nan: "fl_le x y \<Longrightarrow> \<not> is_nan x \<and> \<not> is_nan y"
  by (cases x; cases y) simp_all

lemma fl_lt_not_nan: "fl_lt x y \<Longrightarrow> \<not> is_nan x \<and> \<not> is_nan y"
  by (cases x; cases y) simp_all

lemma fl_lt_not_le: "fl_lt x y \<Longrightarrow> \<not> fl_le y x"
  by (cases x; cases y) simp_all

lemma UniformUnnormedRV_fields:
  "rv_class (UniformUnnormedRV lower upper) = UniformUnnormedRV_generator"
  "rv_a (UniformUnnormedRV lower upper) = lower"
  "rv_b (UniformUnnormedRV lower upper) = upper"
  "rv_loc (UniformUnnormedRV lower upper) = Fin 0"
  "rv_scale (UniformUnnormedRV lower upper) = Fin 1"
  by (simp_all add: UniformUnnormedRV_def rv_continuous_init_def)

lemma UniformBoundedRV_fields:
  "rv_class (UniformBoundedRV lower upper) = uniform_gen"
  "rv_a (UniformBoundedRV lower upper) = Fin 0"
  "rv_b (UniformBoundedRV lower upper) = Fin 1"
  "rv_loc (UniformBoundedRV lower upper) = lower"
  "rv_scale (UniformBoundedRV lower upper) = double_sub upper lower"
  by (simp_all add: UniformBoundedRV_def scipy_stats_uniform_def)

text \<open>The unnormalised distribution, at every point and for every pair of bounds.\<close>

lemma unnormed_pdf_cases:
  "rv_pdf (UniformUnnormedRV lower upper) x =
     (if is_nan x then NaN else if fl_le lower x \<and> fl_le x upper then Fin 1 else Fin 0)"
  by (simp add: rv_pdf_def UniformUnnormedRV_fields UniformUnnormedRV_generator_pdf_def)

lemma unnormed_logpdf_cases:
  "rv_logpdf (UniformUnnormedRV lower upper) x =
     (if is_nan x then NaN else if fl_le lower x \<and> fl_le x upper then Fin 0 else NInf)"
  by (simp add: rv_logpdf_def UniformUnnormedRV_fields UniformUnnormedRV_generator_logpdf_def)


section \<open>The unnormalised uniform distribution\<close>

text \<open>
  C1. For bounds \<open>lower < upper\<close>, the density of \<open>UniformUnnormedRV(lower, upper)\<close> is
  1.0 at every point of \<open>[lower, upper]\<close> and 0.0 at every point below \<open>lower\<close> or
  above \<open>upper\<close>; either bound may be infinite.
\<close>

theorem UniformUnnormedRV_pdf:
  assumes "fl_lt lower upper"
  shows "(fl_le lower x \<and> fl_le x upper \<longrightarrow> rv_pdf (UniformUnnormedRV lower upper) x = Fin 1) \<and>
         (fl_lt x lower \<or> fl_lt upper x \<longrightarrow> rv_pdf (UniformUnnormedRV lower upper) x = Fin 0)"
proof (intro conjI impI)
  assume "fl_le lower x \<and> fl_le x upper"
  then show "rv_pdf (UniformUnnormedRV lower upper) x = Fin 1"
    using fl_le_not_nan [of lower x] by (simp add: unnormed_pdf_cases)
next
  assume out: "fl_lt x lower \<or> fl_lt upper x"
  then have "\<not> is_nan x" "\<not> (fl_le lower x \<and> fl_le x upper)"
    using fl_lt_not_nan [of x lower] fl_lt_not_nan [of upper x]
      fl_lt_not_le [of x lower] fl_lt_not_le [of upper x] by auto
  then show "rv_pdf (UniformUnnormedRV lower upper) x = Fin 0"
    by (simp add: unnormed_pdf_cases)
qed

text \<open>The half-bounded scenario of the spec: lower bound 0.0, no upper bound, wrapped in a Prior.\<close>

theorem UniformUnnormedRV_pdf_witness:
  "fl_lt (Fin 0) PInf \<and>
   fst (Prior_pdf (Prior_init (UniformUnnormedRV (Fin 0) PInf)) (PyFloat (Fin 5)))
     = Inr (Scalar (Fin 1)) \<and>
   fst (Prior_pdf (Prior_init (UniformUnnormedRV (Fin 0) PInf)) (PyFloat (Fin (- 1))))
     = Inr (Scalar (Fin 0))"
  using UniformUnnormedRV_pdf [of "Fin 0" PInf "Fin 5"]
    UniformUnnormedRV_pdf [of "Fin 0" PInf "Fin (- 1)"]
  by (simp add: Prior_pdf_def Prior_init_def)

text \<open>
  C6. For bounds \<open>lower < upper\<close>, the log-density of \<open>UniformUnnormedRV(lower, upper)\<close>
  is 0.0 at every point of \<open>[lower, upper]\<close>.
\<close>

theorem UniformUnnormedRV_logpdf:
  assumes "fl_lt lower upper" and "fl_le lower x" and "fl_le x upper"
  shows "rv_logpdf (UniformUnnormedRV lower upper) x = Fin 0"
  using assms fl_le_not_nan [of lower x] by (simp add: unnormed_logpdf_cases)

theorem UniformUnnormedRV_logpdf_witness:
  "fl_lt (Fin 0) PInf \<and> fl_le (Fin 0) (Fin 5) \<and> fl_le (Fin 5) PInf \<and>
   fst (Prior_logpdf (Prior_init (UniformUnnormedRV (Fin 0) PInf)) (PyFloat (Fin 5)))
     = Inr (Scalar (Fin 0))"
  using UniformUnnormedRV_logpdf [of "Fin 0" PInf "Fin 5"]
  by (simp add: Prior_logpdf_def Prior_init_def)

section \<open>The bounded uniform distribution\<close>

lemma to_double_eq_Fin:
  "to_double r = Fin v \<longleftrightarrow> v = round_real r \<and> \<bar>round_real r\<bar> < 2 ^ 1024"
  by (auto simp add: to_double_def)

lemma double_sub_not_nan: "\<not> is_nan x \<Longrightarrow> \<not> is_nan (double_sub x (Fin l))"
  by (cases x) (simp_all add: double_sub_def)

lemma double_div_not_nan: "\<not> is_nan w \<Longrightarrow> s \<noteq> 0 \<Longrightarrow> \<not> is_nan (double_div w (Fin s))"
  by (cases w) (simp_all add: double_div_def)

lemma double_div_Fin: "s \<noteq> 0 \<Longrightarrow> double_div (Fin t) (Fin s) = to_double (t / s)"
  by (simp add: double_div_def)

text \<open>
  The density of the normalised uniform distribution in double precision, at every point
  that is not NaN, for a positive finite scale: \<open>1/scale\<close> where the standardised point
  lies in \<open>[0, 1]\<close>, 0.0 elsewhere.
\<close>

lemma bounded_double_cases:
  assumes "0 < s" and "\<not> is_nan x"
  shows "rv_pdf_double (scipy_stats_uniform (Fin l) (Fin s)) x =
     (if fl_le (Fin 0) (double_div (double_sub x (Fin l)) (Fin s)) \<and>
         fl_le (double_div (double_sub x (Fin l)) (Fin s)) (Fin 1)
      then to_double (1 / s) else Fin 0)"
proof -
  define y where "y = double_div (double_sub x (Fin l)) (Fin s)"
  have nn: "\<not> is_nan y"
    unfolding y_def using assms by (intro double_div_not_nan double_sub_not_nan) simp_all
  have one: "double_div (Fin 1) (Fin s) = to_double (1 / s)"
    using assms(1) by (simp add: double_div_Fin)
  have "rv_pdf_double (scipy_stats_uniform (Fin l) (Fin s)) x =
      (if \<not> fl_lt (Fin 0) (Fin s) \<or> is_nan y then NaN
       else if fl_lt (Fin 0) (Fin s) \<and> fl_le (Fin 0) y \<and> fl_le y (Fin 1) \<and> fl_lt (Fin 0) (Fin s)
         then double_div (method_pdf uniform_gen y) (Fin s)
       else Fin 0)"
    by (simp only: rv_pdf_double_def scipy_stats_uniform_def Let_def rv.select_convs y_def)
  also have "\<dots> = (if fl_le (Fin 0) y \<and> fl_le y (Fin 1) then to_double (1 / s) else Fin 0)"
    using nn assms(1) one by (simp add: uniform_gen_pdf_def)
  finally show ?thesis by (simp only: y_def)
qed

lemma standardised_inside:
  assumes "0 < s" and "round_real (u - l) = s" and "s < 2 ^ 1024" and "l \<le> r" and "r \<le> u"
  shows "\<exists>y. double_div (double_sub (Fin r) (Fin l)) (Fin s) = Fin y \<and> 0 \<le> y \<and> y \<le> 1"
proof -
  have lo: "0 \<le> round_real (r - l)"
    using assms(4) by (intro round_real_nonneg) simp
  have hi: "round_real (r - l) \<le> s"
    using assms(2,5) round_real_mono [of "r - l" "u - l"] by simp
  then have t: "double_sub (Fin r) (Fin l) = Fin (round_real (r - l))"
    using lo assms(3) by (simp add: double_sub_def to_double_finite)
  have "0 \<le> round_real (r - l) / s" "round_real (r - l) / s \<le> 1"
    using lo hi assms(1) by simp_all
  then obtain y where "to_double (round_real (r - l) / s) = Fin y" "0 \<le> y" "y \<le> 1"
    using to_double_between [of "round_real (r - l) / s" 1] by auto
  then show ?thesis
    using t assms(1) by (simp add: double_div_Fin)
qed

text \<open>
  C2, as amended. For finite doubles \<open>lower < upper\<close> whose difference does not overflow,
  with \<open>scale\<close> the difference \<open>upper - lower\<close> as computed in double precision, the
  density of \<open>UniformBoundedRV(lower, upper)\<close>, computed in double precision, is
  \<open>1/scale\<close> at every point of \<open>[lower, upper]\<close>; at a point below \<open>lower\<close> or above
  \<open>upper\<close> it is 0.0 when the standardised point \<open>(x - lower) / scale\<close>, as computed in
  double precision, falls outside \<open>[0, 1]\<close>, and \<open>1/scale\<close> when rounding carries the
  standardised point into \<open>[0, 1]\<close>.
\<close>

theorem UniformBoundedRV_pdf:
  assumes "is_double lower" and "is_double upper" and "lower < upper"
    and "double_sub (Fin upper) (Fin lower) = Fin scale"
  shows "(fl_le (Fin lower) x \<and> fl_le x (Fin upper) \<longrightarrow>
            rv_pdf_double (UniformBoundedRV (Fin lower) (Fin upper)) x
              = to_double (1 / scale)) \<and>
         (fl_lt x (Fin lower) \<or> fl_lt (Fin upper) x \<longrightarrow>
            rv_pdf_double (UniformBoundedRV (Fin lower) (Fin upper)) x
              = (if fl_le (Fin 0) (double_div (double_sub x (Fin lower)) (Fin scale)) \<and>
                    fl_le (double_div (double_sub x (Fin lower)) (Fin scale)) (Fin 1)
                 then to_double (1 / scale) else Fin 0))"
proof -
  have s: "scale = round_real (upper - lower)" "\<bar>scale\<bar> < 2 ^ 1024"
    using assms(4) by (simp_all add: double_sub_def to_double_eq_Fin)
  have pos: "0 < scale"
    using assms(1-3) s(1) double_diff_pos [of lower upper] by simp
  have d: "UniformBoundedRV (Fin lower) (Fin upper) = scipy_stats_uniform (Fin lower) (Fin scale)"
    using assms(4) by (simp add: UniformBoundedRV_def)
  show ?thesis
  proof (intro conjI impI)
    assume "fl_le (Fin lower) x \<and> fl_le x (Fin upper)"
    then obtain r where x: "x = Fin r" and r: "lower \<le> r" "r \<le> upper"
      by (cases x) simp_all
    have rs: "round_real (upper - lower) = scale" using s(1) by (rule sym)
    have lt: "scale < 2 ^ 1024" using s(2) by linarith
    obtain y where y: "double_div (double_sub (Fin r) (Fin lower)) (Fin scale) = Fin y"
        "0 \<le> y" "y \<le> 1"
      using standardised_inside [OF pos rs lt r] by blast
    have "rv_pdf_double (scipy_stats_uniform (Fin lower) (Fin scale)) (Fin r) =
       (if fl_le (Fin 0) (double_div (double_sub (Fin r) (Fin lower)) (Fin scale)) \<and>
           fl_le (double_div (double_sub (Fin r) (Fin lower)) (Fin scale)) (Fin 1)
        then to_double (1 / scale) else Fin 0)"
      using pos by (intro bounded_double_cases) simp_all
    then show "rv_pdf_double (UniformBoundedRV (Fin lower) (Fin upper)) x = to_double (1 / scale)"
      unfolding d x y(1) using y(2,3) by simp
  next
    assume "fl_lt x (Fin lower) \<or> fl_lt (Fin upper) x"
    then have "\<not> is_nan x"
      using fl_lt_not_nan [of x "Fin lower"] fl_lt_not_nan [of "Fin upper" x] by auto
    with pos show "rv_pdf_double (UniformBoundedRV (Fin lower) (Fin upper)) x
        = (if fl_le (Fin 0) (double_div (double_sub x (Fin lower)) (Fin scale)) \<and>
              fl_le (double_div (double_sub x (Fin lower)) (Fin scale)) (Fin 1)
           then to_double (1 / scale) else Fin 0)"
      unfolding d by (rule bounded_double_cases)
  qed
qed

text \<open>The scenario of the spec: \<open>UniformBoundedRV(0.0, 1.0)\<close> at 0.5 and at 1.5.\<close>

theorem UniformBoundedRV_pdf_witness:
  "is_double 0 \<and> is_double 1 \<and> (0::real) < 1 \<and>
   double_sub (Fin 1) (Fin 0) = Fin 1 \<and>
   fl_le (Fin 0) (Fin (1 / 2)) \<and> fl_le (Fin (1 / 2)) (Fin 1) \<and>
   rv_pdf_double (UniformBoundedRV (Fin 0) (Fin 1)) (Fin (1 / 2)) = Fin 1 \<and>
   fl_lt (Fin 1) (Fin (3 / 2)) \<and>
   rv_pdf_double (UniformBoundedRV (Fin 0) (Fin 1)) (Fin (3 / 2)) = Fin 0"
proof -
  have scale: "double_sub (Fin 1) (Fin 0) = Fin 1" by simp
  have std: "double_div (double_sub (Fin (3 / 2)) (Fin 0)) (Fin 1) = Fin (3 / 2)"
    by (simp add: double_div_def)
  have inside: "rv_pdf_double (UniformBoundedRV (Fin 0) (Fin 1)) (Fin (1 / 2)) = Fin 1"
    using UniformBoundedRV_pdf [of 0 1 1 "Fin (1 / 2)"] scale by simp
  have outside: "rv_pdf_double (UniformBoundedRV (Fin 0) (Fin 1)) (Fin (3 / 2)) = Fin 0"
    using UniformBoundedRV_pdf [of 0 1 1 "Fin (3 / 2)"] scale std by simp
  show ?thesis
    using scale inside outside by simp
qed

lemma round_real_1e16:
  "round_real (3 / 2 + 10 ^ 16) = 10 ^ 16 + 2"
  "round_real (7 / 4 + 10 ^ 16) = 10 ^ 16 + 2"
proof -
  have e: "ulp_exp (3 / 2 + 10 ^ 16) = 1" "ulp_exp (7 / 4 + 10 ^ 16) = 1"
    using ulp_exp_eqI [of 53 "3 / 2 + 10 ^ 16"] ulp_exp_eqI [of 53 "7 / 4 + 10 ^ 16"]
    by simp_all
  show "round_real (3 / 2 + 10 ^ 16) = 10 ^ 16 + 2"
    unfolding round_real_def e(1) by (simp add: rne_def Let_def)
  show "round_real (7 / 4 + 10 ^ 16) = 10 ^ 16 + 2"
    unfolding round_real_def e(2) by (simp add: rne_def Let_def)
qed

text \<open>
  C2 as stated fails in two ways. At finite bounds a point outside the interval can be
  carried onto it by rounding: with \<open>lower = -1e16\<close> and \<open>upper = 1.5\<close> both
  \<open>upper - lower\<close> and \<open>1.75 - lower\<close> round to \<open>1e16 + 2\<close>, the standardised point
  is 1.0, and the density at 1.75, above \<open>upper\<close>, is \<open>1/scale\<close>, not 0.0. At an infinite
  bound the standardised point is \<open>inf / inf\<close>: with \<open>lower = -inf\<close> and
  \<open>upper = 0.0\<close> the density at 1.0 is NaN.
\<close>

theorem UniformBoundedRV_pdf_counterexample:
  "fl_lt (Fin (- (10 ^ 16))) (Fin (3 / 2)) \<and> fl_lt (Fin (3 / 2)) (Fin (7 / 4)) \<and>
   rv_pdf_double (UniformBoundedRV (Fin (- (10 ^ 16))) (Fin (3 / 2))) (Fin (7 / 4)) \<noteq> Fin 0 \<and>
   fl_lt NInf (Fin 0) \<and> fl_lt (Fin 0) (Fin 1) \<and>
   rv_pdf_double (UniformBoundedRV NInf (Fin 0)) (Fin 1) = NaN"
proof -
  have scale: "double_sub (Fin (3 / 2)) (Fin (- (10 ^ 16))) = Fin (10 ^ 16 + 2)"
    using round_real_1e16(1) by (simp add: double_sub_def to_double_def)
  have t: "double_sub (Fin (7 / 4)) (Fin (- (10 ^ 16))) = Fin (10 ^ 16 + 2)"
    using round_real_1e16(2) by (simp add: double_sub_def to_double_def)
  have y: "double_div (Fin (10 ^ 16 + 2)) (Fin (10 ^ 16 + 2)) = Fin 1"
    by (simp add: double_div_def)
  have "(2::real) powi (- 54) \<le> 1 / (10 ^ 16 + 2)"
    by (simp add: power_int_minus field_simps)
  then have "(2::real) powi (- 54) \<le> round_real (1 / (10 ^ 16 + 2))"
    by (intro round_real_pos) simp_all
  moreover have "(0::real) < 2 powi (- 54)" by simp
  ultimately have "round_real (1 / (10 ^ 16 + 2)) \<noteq> 0" by linarith
  then have nz: "to_double (1 / (10 ^ 16 + 2)) \<noteq> Fin 0"
    by (simp add: to_double_def)
  have "rv_pdf_double (UniformBoundedRV (Fin (- (10 ^ 16))) (Fin (3 / 2))) (Fin (7 / 4))
      = to_double (1 / (10 ^ 16 + 2))"
    unfolding UniformBoundedRV_def Let_def scale
    by (subst bounded_double_cases) (simp_all only: t y, simp_all)
  with nz have fin: "rv_pdf_double (UniformBoundedRV (Fin (- (10 ^ 16))) (Fin (3 / 2)))
      (Fin (7 / 4)) \<noteq> Fin 0"
    by simp
  have inf: "rv_pdf_double (UniformBoundedRV NInf (Fin 0)) (Fin 1) = NaN"
    by (simp add: rv_pdf_double_def UniformBoundedRV_fields double_sub_def double_div_def)
  show ?thesis
    using fin inf by simp
qed


section \<open>Density and log-density agree\<close>








section \<open>The factories\<close>

text \<open>
  C7. Neither factory checks its bounds: for every \<open>lower\<close> and \<open>upper\<close>, also with
  \<open>upper <= lower\<close>, the result is what the library's constructor returns for the
  arguments as given: \<open>UniformUnnormedRV\<close> hands both bounds on as the support bounds,
  \<open>UniformBoundedRV\<close> hands \<open>lower\<close> on as the location and \<open>upper - lower\<close> as the
  scale.
\<close>

theorem factories_do_not_validate:
  "UniformUnnormedRV lower upper =
     rv_continuous_init UniformUnnormedRV_generator lower upper \<and>
   rv_a (UniformUnnormedRV lower upper) = lower \<and>
   rv_b (UniformUnnormedRV lower upper) = upper \<and>
   UniformBoundedRV lower upper = scipy_stats_uniform lower (double_sub upper lower) \<and>
   rv_loc (UniformBoundedRV lower upper) = lower \<and>
   rv_scale (UniformBoundedRV lower upper) = double_sub upper lower"
  by (simp add: UniformUnnormedRV_def UniformBoundedRV_def rv_continuous_init_def
      scipy_stats_uniform_def)

theorem factories_do_not_validate_witness:
  "rv_a (UniformUnnormedRV (Fin 1) (Fin 0)) = Fin 1 \<and>
   rv_b (UniformUnnormedRV (Fin 1) (Fin 0)) = Fin 0 \<and>
   rv_loc (UniformBoundedRV (Fin 1) (Fin 0)) = Fin 1 \<and>
   rv_scale (UniformBoundedRV (Fin 1) (Fin 0)) = Fin (- 1)"
  using factories_do_not_validate [of "Fin 1" "Fin 0"]
  by (simp add: rv_continuous_init_def scipy_stats_uniform_def double_sub_def)

text \<open>
  What the caller then observes is the library's: a bounded distribution built from
  \<open>upper <= lower\<close> has a scale that is not positive, and its density is NaN everywhere.
\<close>

lemma UniformBoundedRV_malformed:
  assumes "fl_le upper lower"
  shows "rv_pdf (UniformBoundedRV lower upper) x = NaN"
proof -
  have "\<not> fl_lt (Fin 0) (double_sub upper lower)"
  proof (cases "\<exists>u l. upper = Fin u \<and> lower = Fin l")
    case True
    then obtain u l where ul: "upper = Fin u" "lower = Fin l" by blast
    with assms have "u - l \<le> 0" by simp
    then have "round_real (u - l) \<le> 0"
      using round_real_mono [of "u - l" 0] by simp
    then show ?thesis
      using ul \<open>u - l \<le> 0\<close> by (simp add: double_sub_def to_double_def)
  next
    case False
    then show ?thesis
      using assms by (cases upper; cases lower) (simp_all add: double_sub_def)
  qed
  then show ?thesis
    by (simp add: rv_pdf_def UniformBoundedRV_fields)
qed

section \<open>The Prior wrapper: coercion, errors, shape\<close>

lemma Prior_pdf_ndarray:
  "fst (Prior_pdf self (Ndarray arr)) =
     (case astype_float64_same_kind arr of
        Inl e \<Rightarrow> Inl e
      | Inr xs \<Rightarrow> Inr (Array (map (rv_pdf (Prior_rv self)) xs)))"
  by (cases "astype_float64_same_kind arr") (simp_all add: Prior_pdf_def)

lemma Prior_logpdf_ndarray:
  "fst (Prior_logpdf self (Ndarray arr)) =
     (case astype_float64_same_kind arr of
        Inl e \<Rightarrow> Inl e
      | Inr xs \<Rightarrow> Inr (Array (map (rv_logpdf (Prior_rv self)) xs)))"
  by (cases "astype_float64_same_kind arr") (simp_all add: Prior_logpdf_def)

lemma Prior_pdf_other:
  "\<not> is_ndarray val \<Longrightarrow>
   fst (Prior_pdf self val) =
     (case np_float val of
        Inl e \<Rightarrow> Inl e
      | Inr x \<Rightarrow> Inr (Scalar (rv_pdf (Prior_rv self) x)))"
  by (cases val; cases "np_float val") (simp_all add: Prior_pdf_def)

lemma Prior_logpdf_other:
  "\<not> is_ndarray val \<Longrightarrow>
   fst (Prior_logpdf self val) =
     (case np_float val of
        Inl e \<Rightarrow> Inl e
      | Inr x \<Rightarrow> Inr (Scalar (rv_logpdf (Prior_rv self) x)))"
  by (cases val; cases "np_float val") (simp_all add: Prior_logpdf_def)

lemma astype_fails_iff:
  "astype_float64_same_kind arr = Inl e \<longleftrightarrow> \<not> can_cast_same_kind (dtype arr) \<and> e = TypeError"
  by (cases arr) auto


lemma Prior_pdf_state: "snd (Prior_pdf self val) = self"
  by (simp add: Prior_pdf_def split: sum.splits)

lemma Prior_logpdf_state: "snd (Prior_logpdf self val) = self"
  by (simp add: Prior_logpdf_def split: sum.splits)

lemma Prior_pdf_fails_iff:
  "\<not> is_ndarray val \<Longrightarrow> fst (Prior_pdf self val) = Inl e \<longleftrightarrow> np_float val = Inl e"
  by (simp add: Prior_pdf_other split: sum.splits)

lemma Prior_logpdf_fails_iff:
  "\<not> is_ndarray val \<Longrightarrow> fst (Prior_logpdf self val) = Inl e \<longleftrightarrow> np_float val = Inl e"
  by (simp add: Prior_logpdf_other split: sum.splits)

lemma item_float_fails_iff:
  "item_float arr = Inl e \<longleftrightarrow>
     (size_arr arr \<noteq> 1 \<or> \<not> can_cast_same_kind (dtype arr)) \<and> e = TypeError"
  by (induction arr rule: item_float.induct) auto

lemma threshold_of_int: "(of_int (2 ^ 1024 - 2 ^ 970) :: real) = 2 ^ 1024 - 2 ^ 970"
  by simp

lemma np_float_int_ok:
  assumes "\<bar>n\<bar> < 2 ^ 1024 - 2 ^ 970"
  shows "np_float (PyInt n) = Inr (Fin (round_real (of_int n)))"
proof -
  have "(of_int \<bar>n\<bar> :: real) < of_int (2 ^ 1024 - 2 ^ 970)"
    using assms by (simp only: of_int_less_iff)
  then have "\<bar>of_int n :: real\<bar> < 2 ^ 1024 - 2 ^ 970"
    by (simp only: threshold_of_int of_int_abs)
  then have "\<bar>round_real (of_int n)\<bar> < 2 ^ 1024"
    by (rule round_real_below_overflow)
  then have "to_double (of_int n) = Fin (round_real (of_int n))"
    by (rule to_double_finite)
  then show ?thesis by simp
qed

lemma np_float_int_overflow:
  assumes "2 ^ 1024 - 2 ^ 970 \<le> \<bar>n\<bar>"
  shows "np_float (PyInt n) = Inl OverflowError"
proof -
  have "(of_int (2 ^ 1024 - 2 ^ 970) :: real) \<le> of_int \<bar>n\<bar>"
    using assms by (simp only: of_int_le_iff)
  then have big: "2 ^ 1024 - 2 ^ 970 \<le> \<bar>of_int n :: real\<bar>"
    by (simp only: threshold_of_int of_int_abs)
  have "2 ^ 1024 \<le> \<bar>round_real (of_int n)\<bar>"
  proof (cases "0 \<le> (of_int n :: real)")
    case True
    then have "round_real (2 ^ 1024 - 2 ^ 970) \<le> round_real (of_int n)"
      using big by (intro round_real_mono) linarith
    then have "2 ^ 1024 \<le> round_real (of_int n)"
      by (simp only: round_real_threshold)
    then show ?thesis by linarith
  next
    case False
    then have "round_real (2 ^ 1024 - 2 ^ 970) \<le> round_real (- of_int n)"
      using big by (intro round_real_mono) linarith
    then have "2 ^ 1024 \<le> - round_real (of_int n)"
      by (simp only: round_real_threshold round_real_minus)
    then show ?thesis by linarith
  qed
  then have "to_double (of_int n) = PInf \<or> to_double (of_int n) = NInf"
    by (simp add: to_double_def)
  then show ?thesis by auto
qed

lemma np_float_int_fails_iff:
  "np_float (PyInt n) = Inl e \<longleftrightarrow> 2 ^ 1024 - 2 ^ 970 \<le> \<bar>n\<bar> \<and> e = OverflowError"
proof (cases "\<bar>n\<bar> < 2 ^ 1024 - 2 ^ 970")
  case True
  then show ?thesis using np_float_int_ok [OF True] by simp
next
  case False
  then have "2 ^ 1024 - 2 ^ 970 \<le> \<bar>n\<bar>" by simp
  then show ?thesis using np_float_int_overflow [of n] by auto
qed

text \<open>
  C4, as amended. \<open>pdf\<close> and \<open>logpdf\<close> convert the input to double precision and then
  evaluate the distribution at the converted value; a failed conversion reaches the caller
  as it is. An input of exact type \<open>numpy.ndarray\<close> fails exactly when its dtype may not be
  cast to float64 under the same-kind rule (a complex dtype), with TypeError. Of the other
  inputs a built-in complex, a list and a tuple fail with TypeError, an instance of an
  ndarray subclass fails with TypeError exactly when it does not hold one element of a
  castable dtype, an int fails exactly when its magnitude is \<open>2^1024 - 2^970\<close> or more, with
  OverflowError, and a string fails exactly when it is no float literal, with ValueError.
  A bool, a float, a numeric string and a numpy complex scalar are accepted: of the complex
  scalar the real part is taken.
\<close>

theorem Prior_cast_errors:
  "(fst (Prior_pdf self (Ndarray arr)) = Inl e \<longleftrightarrow>
      \<not> can_cast_same_kind (dtype arr) \<and> e = TypeError) \<and>
   (fst (Prior_logpdf self (Ndarray arr)) = Inl e \<longleftrightarrow>
      \<not> can_cast_same_kind (dtype arr) \<and> e = TypeError) \<and>
   (astype_float64_same_kind arr = Inr xs \<longrightarrow>
      fst (Prior_pdf self (Ndarray arr)) = Inr (rv_pdf_val (Prior_rv self) (Array xs)) \<and>
      fst (Prior_logpdf self (Ndarray arr)) = Inr (rv_logpdf_val (Prior_rv self) (Array xs))) \<and>
   (\<not> is_ndarray val \<and> np_float val = Inr x \<longrightarrow>
      fst (Prior_pdf self val) = Inr (rv_pdf_val (Prior_rv self) (Scalar x)) \<and>
      fst (Prior_logpdf self val) = Inr (rv_logpdf_val (Prior_rv self) (Scalar x))) \<and>
   fst (Prior_pdf self (PyComplex re im)) = Inl TypeError \<and>
   fst (Prior_logpdf self (PyComplex re im)) = Inl TypeError \<and>
   fst (Prior_pdf self (PyList vs)) = Inl TypeError \<and>
   fst (Prior_logpdf self (PyList vs)) = Inl TypeError \<and>
   fst (Prior_pdf self (PyTuple vs)) = Inl TypeError \<and>
   fst (Prior_logpdf self (PyTuple vs)) = Inl TypeError \<and>
   (fst (Prior_pdf self (NdSubclass arr)) = Inl e \<longleftrightarrow>
      (size_arr arr \<noteq> 1 \<or> \<not> can_cast_same_kind (dtype arr)) \<and> e = TypeError) \<and>
   (fst (Prior_logpdf self (NdSubclass arr)) = Inl e \<longleftrightarrow>
      (size_arr arr \<noteq> 1 \<or> \<not> can_cast_same_kind (dtype arr)) \<and> e = TypeError) \<and>
   (fst (Prior_pdf self (PyInt n)) = Inl e \<longleftrightarrow>
      2 ^ 1024 - 2 ^ 970 \<le> \<bar>n\<bar> \<and> e = OverflowError) \<and>
   (fst (Prior_logpdf self (PyInt n)) = Inl e \<longleftrightarrow>
      2 ^ 1024 - 2 ^ 970 \<le> \<bar>n\<bar> \<and> e = OverflowError) \<and>
   (fst (Prior_pdf self (PyStr s)) = Inl e \<longleftrightarrow> s = None \<and> e = ValueError) \<and>
   (fst (Prior_logpdf self (PyStr s)) = Inl e \<longleftrightarrow> s = None \<and> e = ValueError) \<and>
   fst (Prior_pdf self (PyBool b)) = Inr (Scalar (rv_pdf (Prior_rv self) (float_of_bool b))) \<and>
   fst (Prior_logpdf self (PyBool b))
     = Inr (Scalar (rv_logpdf (Prior_rv self) (float_of_bool b))) \<and>
   fst (Prior_pdf self (PyFloat x)) = Inr (Scalar (rv_pdf (Prior_rv self) x)) \<and>
   fst (Prior_logpdf self (PyFloat x)) = Inr (Scalar (rv_logpdf (Prior_rv self) x)) \<and>
   fst (Prior_pdf self (NpComplex re im)) = Inr (Scalar (rv_pdf (Prior_rv self) re)) \<and>
   fst (Prior_logpdf self (NpComplex re im)) = Inr (Scalar (rv_logpdf (Prior_rv self) re))"
proof (intro conjI impI)
  show "fst (Prior_pdf self (Ndarray arr)) = Inl e \<longleftrightarrow>
      \<not> can_cast_same_kind (dtype arr) \<and> e = TypeError"
    unfolding astype_fails_iff [symmetric]
    by (simp add: Prior_pdf_ndarray split: sum.splits)
  show "fst (Prior_logpdf self (Ndarray arr)) = Inl e \<longleftrightarrow>
      \<not> can_cast_same_kind (dtype arr) \<and> e = TypeError"
    unfolding astype_fails_iff [symmetric]
    by (simp add: Prior_logpdf_ndarray split: sum.splits)
  show "fst (Prior_pdf self (PyComplex re im)) = Inl TypeError"
    and "fst (Prior_logpdf self (PyComplex re im)) = Inl TypeError"
    and "fst (Prior_pdf self (PyList vs)) = Inl TypeError"
    and "fst (Prior_logpdf self (PyList vs)) = Inl TypeError"
    and "fst (Prior_pdf self (PyTuple vs)) = Inl TypeError"
    and "fst (Prior_logpdf self (PyTuple vs)) = Inl TypeError"
    by (simp_all add: Prior_pdf_other Prior_logpdf_other)
  show "fst (Prior_pdf self (NdSubclass arr)) = Inl e \<longleftrightarrow>
      (size_arr arr \<noteq> 1 \<or> \<not> can_cast_same_kind (dtype arr)) \<and> e = TypeError"
    and "fst (Prior_logpdf self (NdSubclass arr)) = Inl e \<longleftrightarrow>
      (size_arr arr \<noteq> 1 \<or> \<not> can_cast_same_kind (dtype arr)) \<and> e = TypeError"
    by (simp_all add: Prior_pdf_fails_iff Prior_logpdf_fails_iff item_float_fails_iff)
  show "fst (Prior_pdf self (PyInt n)) = Inl e \<longleftrightarrow>
      2 ^ 1024 - 2 ^ 970 \<le> \<bar>n\<bar> \<and> e = OverflowError"
    using Prior_pdf_fails_iff [of "PyInt n" self e] np_float_int_fails_iff [of n e]
    by (simp only: is_ndarray.simps not_False_eq_True)
  show "fst (Prior_logpdf self (PyInt n)) = Inl e \<longleftrightarrow>
      2 ^ 1024 - 2 ^ 970 \<le> \<bar>n\<bar> \<and> e = OverflowError"
    using Prior_logpdf_fails_iff [of "PyInt n" self e] np_float_int_fails_iff [of n e]
    by (simp only: is_ndarray.simps not_False_eq_True)
  show "fst (Prior_pdf self (PyStr s)) = Inl e \<longleftrightarrow> s = None \<and> e = ValueError"
    and "fst (Prior_logpdf self (PyStr s)) = Inl e \<longleftrightarrow> s = None \<and> e = ValueError"
    by (cases s; auto simp add: Prior_pdf_fails_iff Prior_logpdf_fails_iff)+
  show "fst (Prior_pdf self (PyBool b)) = Inr (Scalar (rv_pdf (Prior_rv self) (float_of_bool b)))"
    and "fst (Prior_logpdf self (PyBool b))
      = Inr (Scalar (rv_logpdf (Prior_rv self) (float_of_bool b)))"
    and "fst (Prior_pdf self (PyFloat x)) = Inr (Scalar (rv_pdf (Prior_rv self) x))"
    and "fst (Prior_logpdf self (PyFloat x)) = Inr (Scalar (rv_logpdf (Prior_rv self) x))"
    and "fst (Prior_pdf self (NpComplex re im)) = Inr (Scalar (rv_pdf (Prior_rv self) re))"
    and "fst (Prior_logpdf self (NpComplex re im)) = Inr (Scalar (rv_logpdf (Prior_rv self) re))"
    by (simp_all add: Prior_pdf_other Prior_logpdf_other)
next
  assume "astype_float64_same_kind arr = Inr xs"
  then show "fst (Prior_pdf self (Ndarray arr)) = Inr (rv_pdf_val (Prior_rv self) (Array xs))"
    and "fst (Prior_logpdf self (Ndarray arr)) = Inr (rv_logpdf_val (Prior_rv self) (Array xs))"
    by (simp_all add: Prior_pdf_ndarray Prior_logpdf_ndarray)
next
  assume "\<not> is_ndarray val \<and> np_float val = Inr x"
  then show "fst (Prior_pdf self val) = Inr (rv_pdf_val (Prior_rv self) (Scalar x))"
    and "fst (Prior_logpdf self val) = Inr (rv_logpdf_val (Prior_rv self) (Scalar x))"
    by (simp_all add: Prior_pdf_other Prior_logpdf_other)
qed

theorem Prior_cast_errors_witness:
  "astype_float64_same_kind (IntArr [0, 2]) = Inr [Fin 0, Fin 2] \<and>
   fst (Prior_pdf (Prior_init (UniformBoundedRV (Fin 0) (Fin 1))) (Ndarray (IntArr [0, 2])))
     = Inr (Array [Fin 1, Fin 0]) \<and>
   \<not> is_ndarray (PyStr (Some (Fin (1 / 2)))) \<and>
   np_float (PyStr (Some (Fin (1 / 2)))) = Inr (Fin (1 / 2)) \<and>
   fst (Prior_pdf (Prior_init (UniformBoundedRV (Fin 0) (Fin 1))) (PyStr (Some (Fin (1 / 2)))))
     = Inr (Scalar (Fin 1)) \<and>
   \<not> can_cast_same_kind (dtype (ComplexArr [(Fin 1, Fin 2)])) \<and>
   fst (Prior_pdf (Prior_init (UniformBoundedRV (Fin 0) (Fin 1)))
         (Ndarray (ComplexArr [(Fin 1, Fin 2)]))) = Inl TypeError \<and>
   fst (Prior_pdf (Prior_init (UniformBoundedRV (Fin 0) (Fin 1))) (PyComplex (Fin 1) (Fin 2)))
     = Inl TypeError"
proof -
  note t = Prior_cast_errors [where self = "Prior_init (UniformBoundedRV (Fin 0) (Fin 1))"
      and val = "PyStr (Some (Fin (1 / 2)))" and x = "Fin (1 / 2)" and e = TypeError
      and re = "Fin 1" and im = "Fin 2"]
  have dens: "rv_pdf (UniformBoundedRV (Fin 0) (Fin 1)) (Fin 0) = Fin 1"
    "rv_pdf (UniformBoundedRV (Fin 0) (Fin 1)) (Fin 2) = Fin 0"
    "rv_pdf (UniformBoundedRV (Fin 0) (Fin 1)) (Fin (1 / 2)) = Fin 1"
    by (simp_all add: rv_pdf_def UniformBoundedRV_fields uniform_gen_pdf_def)
  show ?thesis
    using t [where arr = "IntArr [0, 2]" and xs = "[Fin 0, Fin 2]"]
      t [where arr = "ComplexArr [(Fin 1, Fin 2)]"] dens
    by (simp add: Prior_init_def)
qed

text \<open>
  C4 as stated, that a complex scalar is rejected and that the calls fail exactly when the
  input is not of the floating kind, fails on a numpy complex scalar and on a numeric
  string: \<open>pdf(numpy.complex128(0.5+2j))\<close> and \<open>pdf('0.5')\<close> on a Prior over
  \<open>UniformBoundedRV(0, 1)\<close> both return the density at 0.5.
\<close>

theorem Prior_cast_counterexample:
  "fst (Prior_pdf (Prior_init (UniformBoundedRV (Fin 0) (Fin 1))) (NpComplex (Fin (1 / 2)) (Fin 2)))
     = Inr (Scalar (Fin 1)) \<and>
   fst (Prior_pdf (Prior_init (UniformBoundedRV (Fin 0) (Fin 1))) (PyStr (Some (Fin (1 / 2)))))
     = Inr (Scalar (Fin 1))"
  by (simp add: Prior_pdf_def Prior_init_def rv_pdf_def UniformBoundedRV_fields
      uniform_gen_pdf_def)





section \<open>Purity\<close>

lemma do_call_state: "snd (do_call self c) = self"
  by (cases c) (simp_all add: Prior_pdf_state Prior_logpdf_state)

lemma after_calls_same: "after_calls self cs = self"
  by (induction cs arbitrary: self) (simp_all add: do_call_state)

text \<open>
  C8. A call of \<open>pdf\<close> or \<open>logpdf\<close> leaves the Prior as it was, whether it returns or
  raises; after any sequence of calls the Prior still holds the distribution given at
  construction; and a call returns the same result whatever calls were made before it, so
  two calls with equal inputs return equal results.
\<close>

theorem Prior_calls_are_pure:
  "snd (Prior_pdf self val) = self \<and>
   snd (Prior_logpdf self val) = self \<and>
   after_calls self cs = self \<and>
   Prior_rv (after_calls (Prior_init d) cs) = d \<and>
   fst (Prior_pdf (after_calls self cs) val) = fst (Prior_pdf self val) \<and>
   fst (Prior_logpdf (after_calls self cs) val) = fst (Prior_logpdf self val) \<and>
   fst (Prior_pdf (snd (Prior_pdf self val)) val) = fst (Prior_pdf self val) \<and>
   fst (Prior_logpdf (snd (Prior_logpdf self val)) val) = fst (Prior_logpdf self val)"
  by (simp add: Prior_pdf_state Prior_logpdf_state after_calls_same Prior_init_def)

theorem Prior_calls_are_pure_witness:
  "Prior_rv (after_calls (Prior_init (UniformBoundedRV (Fin 0) (Fin 1)))
     [Pdf (PyFloat (Fin 0.5)), Logpdf (PyComplex (Fin 1) (Fin 2)), Pdf (PyList [])])
     = UniformBoundedRV (Fin 0) (Fin 1) \<and>
   fst (Prior_pdf (after_calls (Prior_init (UniformBoundedRV (Fin 0) (Fin 1)))
     [Pdf (PyFloat (Fin 0.5)), Logpdf (PyComplex (Fin 1) (Fin 2)), Pdf (PyList [])])
     (PyFloat (Fin 0.5)))
     = fst (Prior_pdf (Prior_init (UniformBoundedRV (Fin 0) (Fin 1))) (PyFloat (Fin 0.5)))"
  using Prior_calls_are_pure [of "Prior_init (UniformBoundedRV (Fin 0) (Fin 1))"
      "PyFloat (Fin 0.5)"
      "[Pdf (PyFloat (Fin 0.5)), Logpdf (PyComplex (Fin 1) (Fin 2)), Pdf (PyList [])]"
      "UniformBoundedRV (Fin 0) (Fin 1)"]
  by blast

section \<open>The dispatch on the input's type\<close>

text \<open>
  C9, as amended. Only an input whose type is exactly \<open>numpy.ndarray\<close> takes the array
  path; every other input goes through the scalar float conversion, and the result is then
  never an array. A list and a tuple raise TypeError. An instance of an ndarray subclass
  raises TypeError unless it holds exactly one element: one boolean, integer or floating
  element is converted to a float, and the distribution is evaluated there as on a scalar.
\<close>

theorem Prior_dispatch_exact_type:
  "(\<not> is_ndarray val \<longrightarrow>
      fst (Prior_pdf self val) =
        (case np_float val of
           Inl e \<Rightarrow> Inl e
         | Inr x \<Rightarrow> Inr (Scalar (rv_pdf (Prior_rv self) x))) \<and>
      fst (Prior_logpdf self val) =
        (case np_float val of
           Inl e \<Rightarrow> Inl e
         | Inr x \<Rightarrow> Inr (Scalar (rv_logpdf (Prior_rv self) x))) \<and>
      fst (Prior_pdf self val) \<noteq> Inr (Array ys) \<and>
      fst (Prior_logpdf self val) \<noteq> Inr (Array ys)) \<and>
   fst (Prior_pdf self (Ndarray arr)) =
     (case astype_float64_same_kind arr of
        Inl e \<Rightarrow> Inl e
      | Inr xs \<Rightarrow> Inr (Array (map (rv_pdf (Prior_rv self)) xs))) \<and>
   fst (Prior_logpdf self (Ndarray arr)) =
     (case astype_float64_same_kind arr of
        Inl e \<Rightarrow> Inl e
      | Inr xs \<Rightarrow> Inr (Array (map (rv_logpdf (Prior_rv self)) xs))) \<and>
   fst (Prior_pdf self (PyList vs)) = Inl TypeError \<and>
   fst (Prior_logpdf self (PyList vs)) = Inl TypeError \<and>
   fst (Prior_pdf self (PyTuple vs)) = Inl TypeError \<and>
   fst (Prior_logpdf self (PyTuple vs)) = Inl TypeError \<and>
   (size_arr arr \<noteq> 1 \<longrightarrow>
      fst (Prior_pdf self (NdSubclass arr)) = Inl TypeError \<and>
      fst (Prior_logpdf self (NdSubclass arr)) = Inl TypeError) \<and>
   (size_arr arr = 1 \<and> can_cast_same_kind (dtype arr) \<longrightarrow>
      (\<exists>x. item_float arr = Inr x \<and>
         fst (Prior_pdf self (NdSubclass arr)) = Inr (Scalar (rv_pdf (Prior_rv self) x)) \<and>
         fst (Prior_logpdf self (NdSubclass arr))
           = Inr (Scalar (rv_logpdf (Prior_rv self) x))))"
proof (intro conjI impI)
  assume other: "\<not> is_ndarray val"
  then show "fst (Prior_pdf self val) =
        (case np_float val of
           Inl e \<Rightarrow> Inl e
         | Inr x \<Rightarrow> Inr (Scalar (rv_pdf (Prior_rv self) x)))"
    by (rule Prior_pdf_other)
  from other show "fst (Prior_logpdf self val) =
        (case np_float val of
           Inl e \<Rightarrow> Inl e
         | Inr x \<Rightarrow> Inr (Scalar (rv_logpdf (Prior_rv self) x)))"
    by (rule Prior_logpdf_other)
  from other show "fst (Prior_pdf self val) \<noteq> Inr (Array ys)"
    by (simp add: Prior_pdf_other split: sum.splits)
  from other show "fst (Prior_logpdf self val) \<noteq> Inr (Array ys)"
    by (simp add: Prior_logpdf_other split: sum.splits)
next
  show "fst (Prior_pdf self (Ndarray arr)) =
     (case astype_float64_same_kind arr of
        Inl e \<Rightarrow> Inl e
      | Inr xs \<Rightarrow> Inr (Array (map (rv_pdf (Prior_rv self)) xs)))"
    by (rule Prior_pdf_ndarray)
  show "fst (Prior_logpdf self (Ndarray arr)) =
     (case astype_float64_same_kind arr of
        Inl e \<Rightarrow> Inl e
      | Inr xs \<Rightarrow> Inr (Array (map (rv_logpdf (Prior_rv self)) xs)))"
    by (rule Prior_logpdf_ndarray)
  show "fst (Prior_pdf self (PyList vs)) = Inl TypeError"
    and "fst (Prior_logpdf self (PyList vs)) = Inl TypeError"
    and "fst (Prior_pdf self (PyTuple vs)) = Inl TypeError"
    and "fst (Prior_logpdf self (PyTuple vs)) = Inl TypeError"
    by (simp_all add: Prior_pdf_other Prior_logpdf_other)
next
  assume "size_arr arr \<noteq> 1"
  then have "item_float arr = Inl TypeError"
    by (induction arr rule: item_float.induct) simp_all
  then show "fst (Prior_pdf self (NdSubclass arr)) = Inl TypeError"
    and "fst (Prior_logpdf self (NdSubclass arr)) = Inl TypeError"
    by (simp_all add: Prior_pdf_other Prior_logpdf_other)
next
  assume "size_arr arr = 1 \<and> can_cast_same_kind (dtype arr)"
  then obtain x where "item_float arr = Inr x"
    by (induction arr rule: item_float.induct) simp_all
  then show "\<exists>x. item_float arr = Inr x \<and>
         fst (Prior_pdf self (NdSubclass arr)) = Inr (Scalar (rv_pdf (Prior_rv self) x)) \<and>
         fst (Prior_logpdf self (NdSubclass arr))
           = Inr (Scalar (rv_logpdf (Prior_rv self) x))"
    by (simp add: Prior_pdf_other Prior_logpdf_other)
qed

theorem Prior_dispatch_exact_type_witness:
  "\<not> is_ndarray (PyList [PyFloat (Fin 0.2), PyFloat (Fin 0.8)]) \<and>
   fst (Prior_pdf (Prior_init (UniformBoundedRV (Fin 0) (Fin 1)))
         (PyList [PyFloat (Fin 0.2), PyFloat (Fin 0.8)])) = Inl TypeError \<and>
   size_arr (FloatArr [Fin 0.2, Fin 0.8]) \<noteq> 1 \<and>
   fst (Prior_pdf (Prior_init (UniformBoundedRV (Fin 0) (Fin 1)))
         (NdSubclass (FloatArr [Fin 0.2, Fin 0.8]))) = Inl TypeError \<and>
   fst (Prior_pdf (Prior_init (UniformBoundedRV (Fin 0) (Fin 1)))
         (Ndarray (FloatArr [Fin 0.2, Fin 0.8]))) = Inr (Array [Fin 1, Fin 1])"
  using Prior_dispatch_exact_type [of "PyList [PyFloat (Fin 0.2), PyFloat (Fin 0.8)]"
      "Prior_init (UniformBoundedRV (Fin 0) (Fin 1))" "[]" "FloatArr [Fin 0.2, Fin 0.8]"
      "[PyFloat (Fin 0.2), PyFloat (Fin 0.8)]"]
  by (simp add: Prior_init_def rv_pdf_def UniformBoundedRV_fields uniform_gen_pdf_def)

text \<open>
  C9 as stated, that every ndarray-subclass instance raises TypeError, fails on an
  instance with one element: the float conversion takes the element, and \<open>pdf\<close> returns
  the density there.
\<close>

theorem Prior_dispatch_subclass_counterexample:
  "\<not> is_ndarray (NdSubclass (FloatArr [Fin 0.5])) \<and>
   fst (Prior_pdf (Prior_init (UniformBoundedRV (Fin 0) (Fin 1)))
         (NdSubclass (FloatArr [Fin 0.5]))) = Inr (Scalar (Fin 1)) \<and>
   fst (Prior_pdf (Prior_init (UniformBoundedRV (Fin 0) (Fin 1)))
         (NdSubclass (FloatArr [Fin 0.5]))) \<noteq> Inl TypeError"
  by (simp add: Prior_pdf_def Prior_init_def rv_pdf_def UniformBoundedRV_fields
      uniform_gen_pdf_def)


section \<open>Integer inputs\<close>

lemma Prior_pdf_int:
  assumes "\<bar>n\<bar> < 2 ^ 1024 - 2 ^ 970"
  shows "fst (Prior_pdf self (PyInt n))
      = Inr (Scalar (rv_pdf (Prior_rv self) (Fin (round_real (of_int n)))))"
    and "fst (Prior_logpdf self (PyInt n))
      = Inr (Scalar (rv_logpdf (Prior_rv self) (Fin (round_real (of_int n)))))"
  using np_float_int_ok [OF assms]
  by (simp_all only: Prior_pdf_other Prior_logpdf_other is_ndarray.simps not_False_eq_True
      sum.case)

text \<open>
  C10, as amended. An integer scalar whose magnitude is below \<open>2^1024 - 2^970\<close> is
  accepted by \<open>pdf\<close> and \<open>logpdf\<close>: it is converted to the nearest double, and the
  result is the density, or log-density, at that double. An array of integer dtype is
  always accepted, the cast to float64 being a permitted same-kind cast, with every element
  converted to the nearest double.
\<close>

theorem Prior_accepts_integers:
  "(\<bar>n\<bar> < 2 ^ 1024 - 2 ^ 970 \<longrightarrow>
      fst (Prior_pdf self (PyInt n))
        = Inr (Scalar (rv_pdf (Prior_rv self) (Fin (round_real (of_int n))))) \<and>
      fst (Prior_logpdf self (PyInt n))
        = Inr (Scalar (rv_logpdf (Prior_rv self) (Fin (round_real (of_int n)))))) \<and>
   can_cast_same_kind (dtype (IntArr ns)) \<and>
   fst (Prior_pdf self (Ndarray (IntArr ns)))
     = Inr (Array (map (\<lambda>n. rv_pdf (Prior_rv self) (to_double (of_int n))) ns)) \<and>
   fst (Prior_logpdf self (Ndarray (IntArr ns)))
     = Inr (Array (map (\<lambda>n. rv_logpdf (Prior_rv self) (to_double (of_int n))) ns))"
proof (intro conjI impI)
  assume "\<bar>n\<bar> < 2 ^ 1024 - 2 ^ 970"
  then show "fst (Prior_pdf self (PyInt n))
        = Inr (Scalar (rv_pdf (Prior_rv self) (Fin (round_real (of_int n)))))"
    and "fst (Prior_logpdf self (PyInt n))
        = Inr (Scalar (rv_logpdf (Prior_rv self) (Fin (round_real (of_int n)))))"
    by (rule Prior_pdf_int)+
qed (simp_all add: Prior_pdf_ndarray Prior_logpdf_ndarray comp_def)

text \<open>
  The integer \<open>2^53 + 1\<close> is no double: it converts to \<open>2^53\<close>, so on a Prior over
  \<open>UniformUnnormedRV(0, 2^53)\<close> the density at it is 1.0.
\<close>

theorem Prior_accepts_integers_witness:
  "\<bar>2 ^ 53 + 1 :: int\<bar> < 2 ^ 1024 - 2 ^ 970 \<and>
   round_real (of_int (2 ^ 53 + 1)) = 2 ^ 53 \<and>
   fst (Prior_pdf (Prior_init (UniformUnnormedRV (Fin 0) (Fin (2 ^ 53)))) (PyInt (2 ^ 53 + 1)))
     = Inr (Scalar (Fin 1)) \<and>
   fst (Prior_pdf (Prior_init (UniformBoundedRV (Fin 0) (Fin 1))) (Ndarray (IntArr [0, 1, 2])))
     = Inr (Array [Fin 1, Fin 1, Fin 0])"
proof -
  have small: "\<bar>2 ^ 53 + 1 :: int\<bar> < 2 ^ 1024 - 2 ^ 970"
    by simp
  have rounded: "round_real (of_int (2 ^ 53 + 1)) = 2 ^ 53"
    using round_real_half_even_example by simp
  have scalar: "fst (Prior_pdf (Prior_init (UniformUnnormedRV (Fin 0) (Fin (2 ^ 53))))
      (PyInt (2 ^ 53 + 1))) = Inr (Scalar (Fin 1))"
    using small Prior_accepts_integers
      [of "2 ^ 53 + 1" "Prior_init (UniformUnnormedRV (Fin 0) (Fin (2 ^ 53)))" "[]"]
    by (simp only: rounded) (simp add: Prior_init_def unnormed_pdf_cases)
  have array: "fst (Prior_pdf (Prior_init (UniformBoundedRV (Fin 0) (Fin 1)))
      (Ndarray (IntArr [0, 1, 2]))) = Inr (Array [Fin 1, Fin 1, Fin 0])"
    using Prior_accepts_integers [of 0 "Prior_init (UniformBoundedRV (Fin 0) (Fin 1))" "[0, 1, 2]"]
    by (simp add: Prior_init_def rv_pdf_def UniformBoundedRV_fields uniform_gen_pdf_def)
  show ?thesis
    using small rounded scalar array by blast
qed

text \<open>
  C10 as stated, for every integer scalar, fails on a Python int beyond the range of a
  double: the float conversion of \<open>2^1024\<close> raises OverflowError, and so do \<open>pdf\<close> and
  \<open>logpdf\<close>.
\<close>

theorem Prior_integer_overflow_counterexample:
  "fst (Prior_pdf (Prior_init (UniformBoundedRV (Fin 0) (Fin 1))) (PyInt (2 ^ 1024)))
     = Inl OverflowError \<and>
   fst (Prior_logpdf (Prior_init (UniformBoundedRV (Fin 0) (Fin 1))) (PyInt (2 ^ 1024)))
     = Inl OverflowError"
proof -
  have "np_float (PyInt (2 ^ 1024)) = Inl OverflowError"
    by (rule np_float_int_overflow) simp
  then show ?thesis
    by (simp only: Prior_pdf_other Prior_logpdf_other is_ndarray.simps not_False_eq_True
        sum.case simp_thms)
qed

end
